theory Spec2Isabelle
  imports Complex_Main
begin

section \<open>The skill runtime bridge (dev/runtime/server.py)\<close>

text \<open>
  The bridge is the class \<open>SkillServer\<close>: an asyncio program that reads
  newline-delimited JSON from its standard input, dispatches each message to a tool
  handler or a lifecycle hook, writes responses to its standard output and lets
  handlers call back into the host (reverse RPC).

  The embedding follows the source function by function. The server object is a record
  that is passed through every function and returned updated; what the code writes to
  stdout and stderr is kept in the record as the lists \<open>out\<close> and \<open>logs\<close>. An exception
  is a value of the type \<open>exn\<close>. The asyncio event loop is modelled by an explicit list
  of events (data arriving on stdin, end of file, a timer firing): the functions that
  suspend take the events that are still to come and return those they left.
\<close>

subsection \<open>JSON values and Python dictionaries\<close>

text \<open>
  What \<open>json.loads\<close> produces. Numbers are integers (floating point numbers are left
  out of the model). An object is a Python dict: an association list with distinct keys.
\<close>

datatype json =
    JNull
  | JBool bool
  | JInt int
  | JStr string
  | JArr "json list"
  | JObj "(string \<times> json) list"

type_synonym dict = "(string \<times> json) list"

text \<open>\<open>key in d\<close> and \<open>d.get(key, default)\<close>.\<close>

definition has_key :: "string \<Rightarrow> dict \<Rightarrow> bool" where
  "has_key k d = (map_of d k \<noteq> None)"

definition dict_get :: "dict \<Rightarrow> string \<Rightarrow> json \<Rightarrow> json" where
  "dict_get d k dflt = (case map_of d k of None \<Rightarrow> dflt | Some v \<Rightarrow> v)"

text \<open>Python's truth value of a decoded JSON value (\<open>if p.get("manifest"):\<close>).\<close>

fun truthy :: "json \<Rightarrow> bool" where
  "truthy JNull = False"
| "truthy (JBool b) = b"
| "truthy (JInt n) = (n \<noteq> 0)"
| "truthy (JStr t) = (t \<noteq> [])"
| "truthy (JArr xs) = (xs \<noteq> [])"
| "truthy (JObj d) = (d \<noteq> [])"

text \<open>
  \<open>str.strip()\<close> on text whose code points are below 256: the characters Python
  counts as whitespace there.
\<close>

definition is_space :: "char \<Rightarrow> bool" where
  "is_space c = (c \<in> set [CHR 0x09, CHR 0x0A, CHR 0x0B, CHR 0x0C, CHR 0x0D, CHR 0x1C,
                           CHR 0x1D, CHR 0x1E, CHR 0x1F, CHR 0x20, CHR 0x85, CHR 0xA0])"

definition strip :: "string \<Rightarrow> string" where
  "strip t = rev (dropWhile is_space (rev (dropWhile is_space t)))"

subsection \<open>Exceptions, frames and log lines\<close>

text \<open>
  One constructor for each exception the bridge raises or lets through, carrying the
  value its message is formatted from; \<open>HandlerError\<close> is an exception raised by the
  code of a tool or a hook.
\<close>

datatype exn =
    UnknownMethod json
  | UnknownTool json
  | RpcTimeout string
  | RpcError json
  | TypeError string
  | AttributeError string
  | UnicodeDecodeError
  | HandlerError string

text \<open>
  The three shapes of message that \<open>_write_message\<close> is given: the result of
  \<open>_send_response\<close>, of \<open>_send_error\<close> (the message field is \<open>str(exc)\<close>, kept
  here as the exception) and the request built by \<open>_reverse_rpc\<close> (with \<open>params\<close>
  only when they are not \<open>None\<close>).
\<close>

datatype frame =
    Response json json
  | ErrorResponse json int exn
  | Request int string "json option"

datatype log_entry =
    ParseFailure string
  | NotificationError exn
  | SkillLog string

subsection \<open>Handler code\<close>

text \<open>
  What a tool or a hook returns: \<open>None\<close>, a string, or a \<open>ToolResult\<close> with its
  \<open>content\<close> and \<open>is_error\<close>.
\<close>

datatype pyval = PNone | PStr string | PToolResult string bool

text \<open>
  The body of a tool or of a hook is Python code outside the bridge. It is modelled by
  the calls it makes into the bridge, each with the code that follows it:
  \<^item> \<open>Await m params k\<close> is \<open>await server._reverse_rpc(m, params)\<close> inside a
    \<open>try\<close>: \<open>k\<close> receives the result or the exception (and may raise it again);
  \<^item> \<open>EnsureFuture m params k\<close> is
    \<open>asyncio.ensure_future(server._reverse_rpc(m, params))\<close>, then \<open>k\<close>;
  \<^item> \<open>LogMsg\<close>, \<open>ToolsRegister\<close>, \<open>ToolsUnregister\<close> and \<open>ToolsList\<close> are
    \<open>ctx.log\<close>, \<open>ctx.tools.register\<close>, \<open>ctx.tools.unregister\<close> and
    \<open>ctx.tools.list\<close> of the object built by \<open>_create_context\<close>. A registered tool is
    given by its name, description, parameters and \<open>execute\<close>.
\<close>

datatype prog =
    Return pyval
  | Raise exn
  | Await string "json option" "exn + json \<Rightarrow> prog"
  | EnsureFuture string "json option" prog
  | LogMsg string prog
  | ToolsRegister string string dict "json \<Rightarrow> prog" prog
  | ToolsUnregister string prog
  | ToolsList "string list \<Rightarrow> prog"

record skill_tool =
  tool_name :: string
  tool_description :: string
  tool_parameters :: dict
  execute :: "json \<Rightarrow> prog"

record skill_hooks =
  on_load :: "prog option"
  on_unload :: "prog option"
  on_session_start :: "(json \<Rightarrow> prog) option"
  on_session_end :: "(json \<Rightarrow> prog) option"
  on_before_message :: "(json \<Rightarrow> prog) option"
  on_after_response :: "(json \<Rightarrow> prog) option"
  on_tick :: "prog option"

subsection \<open>The server object and the event loop\<close>

text \<open>
  An \<open>asyncio.Future\<close> is pending, holds a result, holds an exception, or is cancelled.
  Every future of the bridge is created by \<open>_reverse_rpc\<close> for one message id, so the
  futures are kept in a heap indexed by that id; the dict \<open>_pending\<close> is the list of
  its keys, and the value stored under a key is the future of that id.

  A timer of the event loop is the timeout of a \<open>wait_for\<close> on the future of an id, or
  the \<open>sys.exit(0)\<close> that \<open>skill/shutdown\<close> schedules; it is kept with its delay in
  seconds.
\<close>

datatype future = FPending | FResult json | FException exn | FCancelled

datatype timer = WaitFor int | SysExit

text \<open>
  A line read from stdin decodes as UTF-8 to a text, or it does not
  (\<open>line.decode()\<close> raises).
\<close>

datatype line = Utf8 string | NotUtf8

datatype event = Recv "line list" | Eof | Fire timer

record server =
  tools :: "(string \<times> skill_tool) list"
  hooks :: "skill_hooks option"
  pending :: "int list"
  futures :: "int \<Rightarrow> future option"
  next_id :: int
  manifest :: "json option"
  data_dir :: json
  out :: "frame list"
  logs :: "log_entry list"
  timers :: "(timer \<times> rat) list"
  spawned :: "(string \<times> json option) list"
  inbuf :: "line list"
  at_eof :: bool

text \<open>
  \<open>__init__\<close>: the dict comprehension over \<open>skill.tools\<close> keeps the first position
  of a name and the last tool given for it.
\<close>

definition dict_set :: "string \<Rightarrow> 'a \<Rightarrow> (string \<times> 'a) list \<Rightarrow> (string \<times> 'a) list" where
  "dict_set k v d =
     (if k \<in> fst ` set d then map (\<lambda>(k', v'). if k' = k then (k', v) else (k', v')) d
      else d @ [(k, v)])"

definition init :: "skill_tool list \<Rightarrow> skill_hooks option \<Rightarrow> server" where
  "init ts hs =
     \<lparr>tools = foldl (\<lambda>d t. dict_set (tool_name t) t d) [] ts,
      hooks = hs,
      pending = [],
      futures = (\<lambda>i. None),
      next_id = 1,
      manifest = None,
      data_dir = JStr [],
      out = [],
      logs = [],
      timers = [],
      spawned = [],
      inbuf = [],
      at_eof = False\<rparr>"

subsection \<open>JSON-RPC I/O\<close>

definition log_msg :: "log_entry \<Rightarrow> server \<Rightarrow> server" where
  "log_msg e s = s\<lparr>logs := logs s @ [e]\<rparr>"

definition write_message :: "frame \<Rightarrow> server \<Rightarrow> server" where
  "write_message f s = s\<lparr>out := out s @ [f]\<rparr>"

definition send_response :: "json \<Rightarrow> json \<Rightarrow> server \<Rightarrow> server" where
  "send_response msg_id result s = write_message (Response msg_id result) s"

definition send_error :: "json \<Rightarrow> int \<Rightarrow> exn \<Rightarrow> server \<Rightarrow> server" where
  "send_error msg_id code e s = write_message (ErrorResponse msg_id code e) s"

definition armed :: "timer \<Rightarrow> server \<Rightarrow> bool" where
  "armed t s = (t \<in> fst ` set (timers s))"

definition disarm :: "timer \<Rightarrow> server \<Rightarrow> server" where
  "disarm t s = s\<lparr>timers := filter (\<lambda>x. fst x \<noteq> t) (timers s)\<rparr>"

text \<open>
  \<open>_reverse_rpc\<close> up to its \<open>await\<close>: a fresh id, the future stored in \<open>_pending\<close>, the
  request written, and \<open>wait_for\<close> entered with its timeout of 30 seconds.
\<close>

definition reverse_rpc_send :: "string \<Rightarrow> json option \<Rightarrow> server \<Rightarrow> int \<times> server" where
  "reverse_rpc_send m params s =
     (let msg_id = next_id s;
          s1 = s\<lparr>next_id := next_id s + 1\<rparr>;
          s2 = s1\<lparr>futures := (futures s1)(msg_id \<mapsto> FPending),
                  pending := (if msg_id \<in> set (pending s1) then pending s1
                              else pending s1 @ [msg_id])\<rparr>;
          s3 = write_message (Request msg_id m params) s2
      in (msg_id, s3\<lparr>timers := timers s3 @ [(WaitFor msg_id, 30)]\<rparr>))"

text \<open>
  The timeout of \<open>wait_for\<close>: the timer is spent, the future is cancelled unless it is
  done, and the \<open>except asyncio.TimeoutError\<close> clause pops the id from \<open>_pending\<close>
  (and raises the \<open>RuntimeError\<close> of the timeout in the waiting coroutine).
\<close>

definition expire :: "int \<Rightarrow> server \<Rightarrow> server" where
  "expire i s =
     (let s1 = disarm (WaitFor i) s;
          s2 = (if futures s1 i = Some FPending then s1\<lparr>futures := (futures s1)(i \<mapsto> FCancelled)\<rparr>
                else s1)
      in s2\<lparr>pending := removeAll i (pending s2)\<rparr>)"

text \<open>
  A task made by \<open>ensure_future\<close> starts when the running task next suspends: it then
  runs \<open>_reverse_rpc\<close> up to its \<open>await\<close>.
\<close>

definition start_spawned :: "server \<Rightarrow> server" where
  "start_spawned s =
     foldl (\<lambda>s' (m, params). snd (reverse_rpc_send m params s')) (s\<lparr>spawned := []\<rparr>) (spawned s)"

subsection \<open>Reverse RPC: the calls a handler can make\<close>

text \<open>
  The public coroutines of the server (\<open>set_state\<close>, \<open>write_data\<close>, \<open>emit_event\<close>,
  \<open>get_state\<close>): each awaits \<open>_reverse_rpc\<close>. The code after the call receives the
  exception, if one was raised.
\<close>

definition raised :: "exn + json \<Rightarrow> exn option" where
  "raised r = (case r of Inl e \<Rightarrow> Some e | Inr v \<Rightarrow> None)"

definition set_state :: "json \<Rightarrow> (exn option \<Rightarrow> prog) \<Rightarrow> prog" where
  "set_state partial k = Await ''state/set'' (Some (JObj [(''partial'', partial)])) (\<lambda>r. k (raised r))"

definition write_data :: "json \<Rightarrow> json \<Rightarrow> (exn option \<Rightarrow> prog) \<Rightarrow> prog" where
  "write_data filename content k =
     Await ''data/write'' (Some (JObj [(''filename'', filename), (''content'', content)]))
       (\<lambda>r. k (raised r))"

definition emit_event :: "json \<Rightarrow> json \<Rightarrow> (exn option \<Rightarrow> prog) \<Rightarrow> prog" where
  "emit_event event_type data k =
     Await ''intelligence/emitEvent'' (Some (JObj [(''eventType'', event_type), (''data'', data)]))
       (\<lambda>r. k (raised r))"

definition get_state :: "(exn + json \<Rightarrow> prog) \<Rightarrow> prog" where
  "get_state k =
     Await ''state/get'' None
       (\<lambda>r. k (case r of Inl e \<Rightarrow> Inl e
                | Inr v \<Rightarrow> Inr (case v of JObj d \<Rightarrow> dict_get d ''state'' JNull | _ \<Rightarrow> v)))"

text \<open>
  \<open>set_state\<close> and \<open>emit_event\<close> of the context object: the coroutine of the server is
  handed to \<open>asyncio.ensure_future\<close> and the method returns \<open>None\<close>.
\<close>

definition ctx_set_state :: "json \<Rightarrow> prog \<Rightarrow> prog" where
  "ctx_set_state partial k = EnsureFuture ''state/set'' (Some (JObj [(''partial'', partial)])) k"

definition ctx_emit_event :: "json \<Rightarrow> json \<Rightarrow> prog \<Rightarrow> prog" where
  "ctx_emit_event event_name data k =
     EnsureFuture ''intelligence/emitEvent''
       (Some (JObj [(''eventType'', event_name), (''data'', data)])) k"

subsection \<open>Running handler code in the task of the main loop\<close>

text \<open>
  \<open>await asyncio.wait_for(future, timeout=30.0)\<close> in the task that runs \<open>_run\<close>. The
  task is suspended until its future is done or its timer fires. Meanwhile the event
  loop keeps running: data arriving on stdin is buffered by the stream reader (nothing
  calls \<open>readline\<close>, which only \<open>_run\<close> does), the timers of other reverse calls
  fire, and so may the \<open>sys.exit(0)\<close> of a shutdown. When the events given run out the
  task is still waiting.
\<close>

datatype wake = Woken "exn + json" | ExitFired | StillWaiting

fun settled :: "future option \<Rightarrow> (exn + json) option" where
  "settled (Some (FResult v)) = Some (Inr v)"
| "settled (Some (FException e)) = Some (Inl e)"
| "settled _ = None"

fun await_loop :: "int \<Rightarrow> string \<Rightarrow> server \<Rightarrow> event list \<Rightarrow> wake \<times> server \<times> event list" where
  "await_loop i m s [] =
     (case settled (futures s i) of
        Some r \<Rightarrow> (Woken r, s, [])
      | None \<Rightarrow> (StillWaiting, s, []))"
| "await_loop i m s (ev # evs) =
     (case settled (futures s i) of
        Some r \<Rightarrow> (Woken r, s, ev # evs)
      | None \<Rightarrow>
          (case ev of
             Recv ls \<Rightarrow> await_loop i m (s\<lparr>inbuf := inbuf s @ ls\<rparr>) evs
           | Eof \<Rightarrow> await_loop i m (s\<lparr>at_eof := True\<rparr>) evs
           | Fire t \<Rightarrow>
               if \<not> armed t s then await_loop i m s evs
               else (case t of
                       SysExit \<Rightarrow> (ExitFired, s, evs)
                     | WaitFor j \<Rightarrow>
                         if j = i then (Woken (Inl (RpcTimeout m)), expire j s, evs)
                         else await_loop i m (expire j s) evs)))"

text \<open>
  The outcome of running handler code, or a dispatch: it returned, it raised, the
  process exited while it was suspended, or it is still suspended when the events run
  out.
\<close>

datatype 'a outcome = Returned 'a | Raised exn | Exited | Suspended

primrec exec :: "prog \<Rightarrow> server \<Rightarrow> event list \<Rightarrow> pyval outcome \<times> server \<times> event list" where
  "exec (Return v) s evs = (Returned v, s, evs)"
| "exec (Raise e) s evs = (Raised e, s, evs)"
| "exec (Await m params k) s evs =
     (case reverse_rpc_send m params s of
        (msg_id, s1) \<Rightarrow>
          (case await_loop msg_id m (start_spawned s1) evs of
             (Woken r, s2, evs2) \<Rightarrow> exec (k r) s2 evs2
           | (ExitFired, s2, evs2) \<Rightarrow> (Exited, s2, evs2)
           | (StillWaiting, s2, evs2) \<Rightarrow> (Suspended, s2, evs2)))"
| "exec (EnsureFuture m params k) s evs = exec k (s\<lparr>spawned := spawned s @ [(m, params)]\<rparr>) evs"
| "exec (LogMsg t k) s evs = exec k (log_msg (SkillLog t) s) evs"
| "exec (ToolsRegister n d ps ex k) s evs = exec k s evs"
| "exec (ToolsUnregister n k) s evs = exec k s evs"
| "exec (ToolsList k) s evs = exec (k (map fst (tools s))) s evs"

definition then_result ::
  "('a \<Rightarrow> 'b outcome) \<Rightarrow> 'a outcome \<times> server \<times> event list \<Rightarrow> 'b outcome \<times> server \<times> event list" where
  "then_result f r =
     (case r of
        (x, s, evs) \<Rightarrow>
          ((case x of Returned v \<Rightarrow> f v | Raised e \<Rightarrow> Raised e
            | Exited \<Rightarrow> Exited | Suspended \<Rightarrow> Suspended), s, evs))"

subsection \<open>Responses to reverse calls\<close>

text \<open>
  \<open>self._pending.pop(msg_id, None)\<close>. The keys of \<open>_pending\<close> are integers, and Python
  looks a key up by hash and equality: \<open>True\<close> and \<open>False\<close> are the keys 1 and 0, a
  string or \<open>None\<close> equals no integer, and a list or a dict cannot be hashed
  (\<open>TypeError\<close>). CPython returns the default from an empty dict before it hashes
  the key.
\<close>

definition pop_key :: "int \<Rightarrow> server \<Rightarrow> int option \<times> server" where
  "pop_key n s =
     (if n \<in> set (pending s) then (Some n, s\<lparr>pending := removeAll n (pending s)\<rparr>)
      else (None, s))"

definition pending_pop :: "json \<Rightarrow> server \<Rightarrow> exn + int option \<times> server" where
  "pending_pop msg_id s =
     (if pending s = [] then Inr (None, s)
      else (case msg_id of
              JInt n \<Rightarrow> Inr (pop_key n s)
            | JBool b \<Rightarrow> Inr (pop_key (if b then 1 else 0) s)
            | JArr xs \<Rightarrow> Inl (TypeError ''unhashable type: list'')
            | JObj d \<Rightarrow> Inl (TypeError ''unhashable type: dict'')
            | _ \<Rightarrow> Inr (None, s)))"

text \<open>
  \<open>future.set_result\<close> and \<open>future.set_exception\<close>. The coroutine waiting in
  \<open>wait_for\<close> is woken and the timer of its timeout is cancelled.
\<close>

definition set_result :: "int \<Rightarrow> json \<Rightarrow> server \<Rightarrow> server" where
  "set_result i v s = disarm (WaitFor i) (s\<lparr>futures := (futures s)(i \<mapsto> FResult v)\<rparr>)"

definition set_exception :: "int \<Rightarrow> exn \<Rightarrow> server \<Rightarrow> server" where
  "set_exception i e s = disarm (WaitFor i) (s\<lparr>futures := (futures s)(i \<mapsto> FException e)\<rparr>)"

text \<open>
  The first branch of \<open>_handle_message\<close>, for a message \<open>d\<close> that carries \<open>result\<close>
  or \<open>error\<close>. An exception here is not caught by \<open>_handle_message\<close>.
\<close>

definition handle_response :: "dict \<Rightarrow> server \<Rightarrow> exn + server" where
  "handle_response d s =
     (case pending_pop (dict_get d ''id'' JNull) s of
        Inl e \<Rightarrow> Inl e
      | Inr (None, s1) \<Rightarrow> Inr s1
      | Inr (Some i, s1) \<Rightarrow>
          if futures s1 i = Some FPending then
            (if has_key ''error'' d then
               (case dict_get d ''error'' JNull of
                  JObj ed \<Rightarrow>
                    Inr (set_exception i (RpcError (dict_get ed ''message'' (JStr ''Reverse RPC error''))) s1)
                | _ \<Rightarrow> Inl (AttributeError ''get''))
             else Inr (set_result i (dict_get d ''result'' JNull) s1))
          else Inr s1)"

subsection \<open>Dispatch\<close>

definition ok_result :: json where
  "ok_result = JObj [(''ok'', JBool True)]"

text \<open>The advertisement of one tool in the answer to \<open>tools/list\<close>.\<close>

definition tool_advert :: "skill_tool \<Rightarrow> json" where
  "tool_advert t =
     JObj [(''name'', JStr (tool_name t)),
           (''description'', JStr (tool_description t)),
           (''inputSchema'',
              JObj [(''type'', JStr ''object''),
                    (''properties'', dict_get (tool_parameters t) ''properties'' (JObj [])),
                    (''required'', dict_get (tool_parameters t) ''required'' JNull)])]"

definition tools_list :: "server \<Rightarrow> json" where
  "tools_list s = JObj [(''tools'', JArr (map (\<lambda>x. tool_advert (snd x)) (tools s)))]"

text \<open>\<open>self._tools.get(name)\<close>: the keys are strings.\<close>

definition tools_get :: "json \<Rightarrow> server \<Rightarrow> exn + skill_tool option" where
  "tools_get name s =
     (case name of
        JStr n \<Rightarrow> Inr (map_of (tools s) n)
      | JArr xs \<Rightarrow> Inl (TypeError ''unhashable type: list'')
      | JObj d \<Rightarrow> Inl (TypeError ''unhashable type: dict'')
      | _ \<Rightarrow> Inr None)"

text \<open>The payload of the answer to \<open>tools/call\<close>, from what \<open>tool.execute\<close> returned.\<close>

fun tool_response :: "pyval \<Rightarrow> json outcome" where
  "tool_response (PToolResult content is_error) =
     Returned (JObj [(''content'', JArr [JObj [(''type'', JStr ''text''), (''text'', JStr content)]]),
                     (''isError'', JBool is_error)])"
| "tool_response v = Raised (AttributeError ''content'')"

text \<open>\<open>result if isinstance(result, str) else None\<close>.\<close>

fun str_or_none :: "pyval \<Rightarrow> json" where
  "str_or_none (PStr t) = JStr t"
| "str_or_none v = JNull"

text \<open>
  \<open>if self._hooks and self._hooks.on_...:\<close> selects the hook, if the skill has hooks
  and this one is set.
\<close>

definition hook :: "(skill_hooks \<Rightarrow> 'a option) \<Rightarrow> server \<Rightarrow> 'a option" where
  "hook sel s = (case hooks s of None \<Rightarrow> None | Some h \<Rightarrow> sel h)"

text \<open>A lifecycle method: the hook is awaited if it is set, and the answer is \<open>{"ok": True}\<close>.\<close>

definition lifecycle :: "prog option \<Rightarrow> server \<Rightarrow> event list \<Rightarrow> json outcome \<times> server \<times> event list" where
  "lifecycle h s evs =
     (case h of
        None \<Rightarrow> (Returned ok_result, s, evs)
      | Some body \<Rightarrow> then_result (\<lambda>v. Returned ok_result) (exec body s evs))"

text \<open>A transforming hook (\<open>skill/beforeMessage\<close>, \<open>skill/afterResponse\<close>) answering under \<open>key\<close>.\<close>

definition transform :: "string \<Rightarrow> prog option \<Rightarrow> server \<Rightarrow> event list \<Rightarrow> json outcome \<times> server \<times> event list" where
  "transform key h s evs =
     (case h of
        None \<Rightarrow> (Returned (JObj [(key, JNull)]), s, evs)
      | Some body \<Rightarrow> then_result (\<lambda>v. Returned (JObj [(key, str_or_none v)])) (exec body s evs))"

definition skill_load :: "dict \<Rightarrow> server \<Rightarrow> server" where
  "skill_load p s =
     (let s1 = (if truthy (dict_get p ''manifest'' JNull)
                then s\<lparr>manifest := Some (dict_get p ''manifest'' JNull)\<rparr> else s)
      in if truthy (dict_get p ''dataDir'' JNull)
         then s1\<lparr>data_dir := dict_get p ''dataDir'' JNull\<rparr> else s1)"

definition dispatch :: "json \<Rightarrow> json \<Rightarrow> server \<Rightarrow> event list \<Rightarrow> json outcome \<times> server \<times> event list" where
  "dispatch meth params s evs =
     (let p = (case params of JObj d \<Rightarrow> d | _ \<Rightarrow> []) in
      if meth = JStr ''tools/list'' then (Returned (tools_list s), s, evs)
      else if meth = JStr ''tools/call'' then
        (let name = dict_get p ''name'' (JStr []);
             args = dict_get p ''arguments'' (JObj [])
         in case tools_get name s of
              Inl e \<Rightarrow> (Raised e, s, evs)
            | Inr None \<Rightarrow> (Raised (UnknownTool name), s, evs)
            | Inr (Some tool) \<Rightarrow> then_result tool_response (exec (execute tool args) s evs))
      else if meth = JStr ''skill/load'' then lifecycle (hook on_load s) (skill_load p s) evs
      else if meth = JStr ''skill/unload'' then lifecycle (hook on_unload s) s evs
      else if meth = JStr ''skill/activate'' then (Returned ok_result, s, evs)
      else if meth = JStr ''skill/deactivate'' then (Returned ok_result, s, evs)
      else if meth = JStr ''skill/sessionStart'' then
        lifecycle (map_option (\<lambda>h. h (dict_get p ''sessionId'' (JStr []))) (hook on_session_start s)) s evs
      else if meth = JStr ''skill/sessionEnd'' then
        lifecycle (map_option (\<lambda>h. h (dict_get p ''sessionId'' (JStr []))) (hook on_session_end s)) s evs
      else if meth = JStr ''skill/beforeMessage'' then
        transform ''message''
          (map_option (\<lambda>h. h (dict_get p ''message'' (JStr []))) (hook on_before_message s)) s evs
      else if meth = JStr ''skill/afterResponse'' then
        transform ''response''
          (map_option (\<lambda>h. h (dict_get p ''response'' (JStr []))) (hook on_after_response s)) s evs
      else if meth = JStr ''skill/tick'' then lifecycle (hook on_tick s) s evs
      else if meth = JStr ''skill/shutdown'' then
        (Returned ok_result, s\<lparr>timers := timers s @ [(SysExit, 1 / 10)]\<rparr>, evs)
      else (Raised (UnknownMethod meth), s, evs))"

subsection \<open>The message handler and the main loop\<close>

text \<open>
  Why the loop of \<open>_run\<close> stops: the input is closed, \<open>sys.exit(0)\<close> ran, an exception
  left \<open>_run\<close>; or the events given ran out, with a handler suspended in a reverse call
  or with \<open>readline\<close> waiting for input.
\<close>

datatype halt = Closed | ProcessExit | Crashed exn | InHandler | AwaitingInput

definition handle_message :: "json \<Rightarrow> server \<Rightarrow> event list \<Rightarrow> halt option \<times> server \<times> event list" where
  "handle_message message s evs =
     (case message of
        JObj d \<Rightarrow>
          if has_key ''result'' d \<or> has_key ''error'' d then
            (case handle_response d s of
               Inl e \<Rightarrow> (Some (Crashed e), s, evs)
             | Inr s1 \<Rightarrow> (None, s1, evs))
          else
            (let meth = dict_get d ''method'' (JStr []);
                 params = dict_get d ''params'' JNull;
                 msg_id = dict_get d ''id'' JNull
             in case dispatch meth params s evs of
                  (Returned result, s1, evs1) \<Rightarrow>
                    (None, if msg_id \<noteq> JNull then send_response msg_id result s1 else s1, evs1)
                | (Raised e, s1, evs1) \<Rightarrow>
                    (None, if msg_id \<noteq> JNull then send_error msg_id (- 32603) e s1
                           else log_msg (NotificationError e) s1, evs1)
                | (Exited, s1, evs1) \<Rightarrow> (Some ProcessExit, s1, evs1)
                | (Suspended, s1, evs1) \<Rightarrow> (Some InHandler, s1, evs1))
      | JStr t \<Rightarrow> (Some (Crashed (AttributeError ''get'')), s, evs)
      | JArr xs \<Rightarrow> (Some (Crashed (AttributeError ''get'')), s, evs)
      | _ \<Rightarrow> (Some (Crashed (TypeError ''argument is not iterable'')), s, evs))"

subsection \<open>Termination of the main loop\<close>

text \<open>
  The loop consumes the buffered lines and the events: each turn takes a line from the
  buffer or an event from the list, and a handler moves lines from the events to the
  buffer without adding any.
\<close>

fun ev_size :: "event \<Rightarrow> nat" where
  "ev_size (Recv ls) = Suc (length ls)"
| "ev_size ev = 1"

definition work :: "server \<Rightarrow> event list \<Rightarrow> nat" where
  "work s evs = length (inbuf s) + sum_list (map ev_size evs)"

lemma inbuf_reverse_rpc_send [simp]: "inbuf (snd (reverse_rpc_send m params s)) = inbuf s"
  by (simp add: reverse_rpc_send_def write_message_def Let_def)

lemma inbuf_foldl_send:
  "inbuf (foldl (\<lambda>s' (m, params). snd (reverse_rpc_send m params s')) s xs) = inbuf s"
  by (induction xs arbitrary: s) (auto simp: split_def)

lemma inbuf_start_spawned [simp]: "inbuf (start_spawned s) = inbuf s"
  by (simp add: start_spawned_def inbuf_foldl_send)

lemma inbuf_expire [simp]: "inbuf (expire i s) = inbuf s"
  by (simp add: expire_def disarm_def Let_def)

lemma work_await_loop:
  "await_loop i m s evs = (w, s', evs') \<Longrightarrow> work s' evs' \<le> work s evs"
proof (induction evs arbitrary: s)
  case Nil
  then show ?case by (auto split: option.splits)
next
  case (Cons ev evs)
  show ?case
  proof (cases "settled (futures s i)")
    case (Some r)
    with Cons.prems show ?thesis by auto
  next
    case None
    show ?thesis
    proof (cases ev)
      case (Recv ls)
      with None Cons.prems have "await_loop i m (s\<lparr>inbuf := inbuf s @ ls\<rparr>) evs = (w, s', evs')" by simp
      from Cons.IH[OF this] Recv show ?thesis by (simp add: work_def)
    next
      case Eof
      with None Cons.prems have "await_loop i m (s\<lparr>at_eof := True\<rparr>) evs = (w, s', evs')" by simp
      from Cons.IH[OF this] Eof show ?thesis by (simp add: work_def)
    next
      case (Fire t)
      show ?thesis
      proof (cases "armed t s")
        case False
        with None Fire Cons.prems have "await_loop i m s evs = (w, s', evs')" by simp
        from Cons.IH[OF this] Fire show ?thesis by (simp add: work_def)
      next
        case True
        show ?thesis
        proof (cases t)
          case SysExit
          with True None Fire Cons.prems show ?thesis by (auto simp: work_def)
        next
          case (WaitFor j)
          show ?thesis
          proof (cases "j = i")
            case True
            with \<open>armed t s\<close> WaitFor None Fire Cons.prems show ?thesis by (auto simp: work_def)
          next
            case False
            with \<open>armed t s\<close> WaitFor None Fire Cons.prems
            have "await_loop i m (expire j s) evs = (w, s', evs')" by simp
            from Cons.IH[OF this] Fire show ?thesis by (simp add: work_def)
          qed
        qed
      qed
    qed
  qed
qed

lemma work_exec:
  "exec pr s evs = (r, s', evs') \<Longrightarrow> work s' evs' \<le> work s evs"
proof (induction pr arbitrary: s evs)
  case (Await m params k)
  obtain i s1 where send: "reverse_rpc_send m params s = (i, s1)" by (cases "reverse_rpc_send m params s")
  obtain w s2 evs2 where aw: "await_loop i m (start_spawned s1) evs = (w, s2, evs2)"
    by (cases "await_loop i m (start_spawned s1) evs")
  have s1: "inbuf s1 = inbuf s" using send inbuf_reverse_rpc_send[of m params s] by simp
  have le: "work s2 evs2 \<le> work s evs" using work_await_loop[OF aw] s1 by (simp add: work_def)
  show ?case
  proof (cases w)
    case (Woken x)
    with Await.prems send aw have "exec (k x) s2 evs2 = (r, s', evs')" by simp
    from Await.IH[OF _ this] le show ?thesis by auto
  next
    case ExitFired
    with Await.prems send aw le show ?thesis by simp
  next
    case StillWaiting
    with Await.prems send aw le show ?thesis by simp
  qed
next
  case (EnsureFuture m params k)
  from EnsureFuture.IH[of "s\<lparr>spawned := spawned s @ [(m, params)]\<rparr>" evs] EnsureFuture.prems
  show ?case by (simp add: work_def)
next
  case (LogMsg t k)
  from LogMsg.IH[of "log_msg (SkillLog t) s" evs] LogMsg.prems
  show ?case by (simp add: work_def log_msg_def)
next
  case (ToolsList k)
  from ToolsList.IH[of "k (map fst (tools s))" s evs] ToolsList.prems
  show ?case by simp
qed auto

lemma work_lifecycle:
  "lifecycle h s evs = (r, s', evs') \<Longrightarrow> work s' evs' \<le> work s evs"
  by (cases h) (auto simp: lifecycle_def then_result_def split: prod.splits dest: work_exec)

lemma work_transform:
  "transform key h s evs = (r, s', evs') \<Longrightarrow> work s' evs' \<le> work s evs"
  by (cases h) (auto simp: transform_def then_result_def split: prod.splits dest: work_exec)

lemma inbuf_skill_load [simp]: "inbuf (skill_load p s) = inbuf s"
  by (simp add: skill_load_def Let_def)

lemma work_dispatch:
  "dispatch meth params s evs = (r, s', evs') \<Longrightarrow> work s' evs' \<le> work s evs"
  unfolding dispatch_def Let_def
  by (auto simp: then_result_def work_def
      split: if_splits sum.splits option.splits prod.splits
      dest!: work_lifecycle[unfolded work_def] work_transform[unfolded work_def] work_exec[unfolded work_def])

lemma inbuf_handle_response: "handle_response d s = Inr s' \<Longrightarrow> inbuf s' = inbuf s"
  by (auto simp: handle_response_def pending_pop_def pop_key_def set_result_def set_exception_def
      disarm_def split: if_splits sum.splits option.splits prod.splits json.splits)

lemma work_handle_message:
  "handle_message message s evs = (h, s', evs') \<Longrightarrow> work s' evs' \<le> work s evs"
  unfolding handle_message_def Let_def
  by (auto simp: work_def send_response_def send_error_def write_message_def log_msg_def
      split: if_splits sum.splits option.splits prod.splits json.splits outcome.splits
      dest!: work_dispatch[unfolded work_def] inbuf_handle_response)

text \<open>
  \<open>_run\<close>. While lines are buffered, \<open>readline\<close> returns at once; at end of file it
  returns the empty line and the loop breaks; otherwise the task suspends, the tasks
  made by \<open>ensure_future\<close> start, and the next event decides. \<open>loads\<close> is
  \<open>json.loads\<close>, with \<open>None\<close> where it raises \<open>JSONDecodeError\<close>.
\<close>

function run :: "(string \<Rightarrow> json option) \<Rightarrow> server \<Rightarrow> event list \<Rightarrow> halt \<times> server" where
  "run loads s evs =
     (case inbuf s of
        l # rest \<Rightarrow>
          (case l of
             NotUtf8 \<Rightarrow> (Crashed UnicodeDecodeError, s\<lparr>inbuf := rest\<rparr>)
           | Utf8 t \<Rightarrow>
               if strip t = [] then run loads (s\<lparr>inbuf := rest\<rparr>) evs
               else (case loads (strip t) of
                       None \<Rightarrow> run loads (log_msg (ParseFailure (strip t)) (s\<lparr>inbuf := rest\<rparr>)) evs
                     | Some message \<Rightarrow>
                         (case handle_message message (s\<lparr>inbuf := rest\<rparr>) evs of
                            (None, s1, evs1) \<Rightarrow> run loads s1 evs1
                          | (Some h, s1, evs1) \<Rightarrow> (h, s1))))
      | [] \<Rightarrow>
          if at_eof s then (Closed, s)
          else (case evs of
                  [] \<Rightarrow> (AwaitingInput, start_spawned s)
                | Recv ls # evs' \<Rightarrow> run loads ((start_spawned s)\<lparr>inbuf := ls\<rparr>) evs'
                | Eof # evs' \<Rightarrow> run loads ((start_spawned s)\<lparr>at_eof := True\<rparr>) evs'
                | Fire t # evs' \<Rightarrow>
                    if \<not> armed t (start_spawned s) then run loads (start_spawned s) evs'
                    else (case t of
                            SysExit \<Rightarrow> (ProcessExit, start_spawned s)
                          | WaitFor j \<Rightarrow> run loads (expire j (start_spawned s)) evs')))"
  by pat_completeness auto
termination
proof (relation "measure (\<lambda>(loads, s, evs). work s evs)")
  fix loads :: "string \<Rightarrow> json option" and s evs l rest t message x y s1 evs1
  assume "inbuf s = l # rest"
    and "(x, y) = handle_message message (s\<lparr>inbuf := rest\<rparr>) evs" and "(s1, evs1) = y"
  then have "work s1 evs1 \<le> work (s\<lparr>inbuf := rest\<rparr>) evs" and "work (s\<lparr>inbuf := rest\<rparr>) evs < work s evs"
    using work_handle_message[of message "s\<lparr>inbuf := rest\<rparr>" evs x s1 evs1] by (auto simp: work_def)
  then show "((loads, s1, evs1), loads, s, evs) \<in> measure (\<lambda>(loads, s, evs). work s evs)"
    by simp
qed (auto simp: work_def log_msg_def)

declare run.simps [simp del]

section \<open>Properties of the bridge\<close>

subsection \<open>Notions used in the properties\<close>

text \<open>The methods that \<open>_dispatch\<close> tests for, in its order.\<close>

definition implemented_methods :: "string list" where
  "implemented_methods =
     [''tools/list'', ''tools/call'', ''skill/load'', ''skill/unload'', ''skill/activate'',
      ''skill/deactivate'', ''skill/sessionStart'', ''skill/sessionEnd'', ''skill/beforeMessage'',
      ''skill/afterResponse'', ''skill/tick'', ''skill/shutdown'']"

text \<open>The error code of a frame, if it is an error response.\<close>

fun error_code :: "frame \<Rightarrow> int option" where
  "error_code (ErrorResponse msg_id code e) = Some code"
| "error_code f = None"

text \<open>
  A property of the server object that every elementary step of the bridge keeps is
  kept by the tasks that start, by a wait, by handler code, by a dispatch, by the message
  handler and by the main loop.
\<close>

definition preserved :: "(server \<Rightarrow> bool) \<Rightarrow> bool" where
  "preserved P =
     (\<forall>s. P s \<longrightarrow>
        (\<forall>m params. P (snd (reverse_rpc_send m params s))) \<and>
        (\<forall>j. P (expire j s)) \<and>
        (\<forall>e. P (log_msg e s)) \<and>
        (\<forall>f. P (write_message f s)) \<and>
        (\<forall>i v. P (set_result i v s)) \<and>
        (\<forall>i e. P (set_exception i e s)) \<and>
        (\<forall>n. P (snd (pop_key n s))) \<and>
        (\<forall>p. P (skill_load p s)) \<and>
        (\<forall>x. P (s\<lparr>inbuf := x\<rparr>)) \<and>
        (\<forall>x. P (s\<lparr>at_eof := x\<rparr>)) \<and>
        (\<forall>x. P (s\<lparr>spawned := x\<rparr>)) \<and>
        (\<forall>d. P (s\<lparr>timers := timers s @ [(SysExit, d)]\<rparr>)))"



text \<open>
  What the code of a handler running in the task of the main loop can depend on: the
  registry, the next id, the tasks not yet started and whether an exit is scheduled.
  The futures, the table \<open>_pending\<close> and the timers of other reverse calls are not
  part of it: two servers that agree on this view run the same handler code on the same
  events to the same outcome.
\<close>

definition same_view :: "server \<Rightarrow> server \<Rightarrow> bool" where
  "same_view s t =
     (tools s = tools t \<and> next_id s = next_id t \<and> spawned s = spawned t
      \<and> armed SysExit s = armed SysExit t)"

subsection \<open>Scenarios\<close>

text \<open>
  The skill and the frames used as concrete inputs below. The skill has two tools:
  \<open>gas_estimate\<close> returns at once, and \<open>add_note\<close> is the tool of Scenario B of the
  specification: it awaits the reverse call \<open>data/write\<close>, then the reverse call
  \<open>state/set\<close> (\<open>server.write_data\<close> and \<open>server.set_state\<close>, letting their
  exceptions through), and returns its text. Its hooks follow the kitchen-sink example:
  \<open>on_load\<close> registers one more tool through \<open>ctx.tools.register\<close> and logs it,
  \<open>on_tick\<close> calls \<open>ctx.set_state\<close>, and \<open>on_before_message\<close> replaces the message
  \<open>/clear\<close> by the empty string and leaves every other message alone.
\<close>

definition gas_estimate :: skill_tool where
  "gas_estimate =
     \<lparr>tool_name = ''gas_estimate'',
      tool_description = ''Estimate gas costs'',
      tool_parameters = [(''type'', JStr ''object''),
                         (''properties'', JObj [(''chain'', JObj [(''type'', JStr ''string'')])]),
                         (''required'', JArr [JStr ''chain''])],
      execute = (\<lambda>args. Return (PToolResult ''Gas Estimate'' False))\<rparr>"

definition add_note :: skill_tool where
  "add_note =
     \<lparr>tool_name = ''add_note'',
      tool_description = ''Save a note'',
      tool_parameters = [(''type'', JStr ''object''),
                         (''properties'', JObj [(''title'', JObj [(''type'', JStr ''string'')]),
                                                (''body'', JObj [(''type'', JStr ''string'')])]),
                         (''required'', JArr [JStr ''title''])],
      execute = (\<lambda>args.
        write_data (JStr ''note_1.json'') args
          (\<lambda>e. case e of
                  Some x \<Rightarrow> Raise x
                | None \<Rightarrow>
                    set_state (JObj [(''notes_index'', JArr [JStr ''note_1''])])
                      (\<lambda>e. case e of
                              Some x \<Rightarrow> Raise x
                            | None \<Rightarrow> Return (PToolResult ''Note saved as note_1.'' False))))\<rparr>"

definition kitchen_hooks :: skill_hooks where
  "kitchen_hooks =
     \<lparr>on_load = Some (ToolsRegister ''advanced_analytics'' ''Run advanced on-chain analytics''
                        [(''type'', JStr ''object''), (''required'', JArr [JStr ''protocol''])]
                        (\<lambda>args. Return (PToolResult ''Hello'' False))
                        (LogMsg ''kitchen-sink: registered advanced_analytics tool'' (Return PNone))),
      on_unload = None,
      on_session_start = None,
      on_session_end = None,
      on_before_message = Some (\<lambda>msg. Return (if msg = JStr ''/clear'' then PStr [] else PNone)),
      on_after_response = None,
      on_tick = Some (ctx_set_state (JObj [(''tick_count'', JInt 1)]) (Return PNone))\<rparr>"

definition kitchen_sink :: server where
  "kitchen_sink = init [gas_estimate, add_note] (Some kitchen_hooks)"

text \<open>The request \<open>{"jsonrpc":"2.0","id":msg_id,"method":"tools/list"}\<close>, decoded.\<close>

definition tools_list_request :: "json \<Rightarrow> dict" where
  "tools_list_request msg_id = [(''jsonrpc'', JStr ''2.0''), (''id'', msg_id), (''method'', JStr ''tools/list'')]"

text \<open>The lines of the scenarios, and what \<open>json.loads\<close> makes of each.\<close>

definition list_text :: string where
  "list_text = ''{\"jsonrpc\":\"2.0\",\"id\":1,\"method\":\"tools/list\"}''"

definition add_note_text :: string where
  "add_note_text = ''{\"jsonrpc\":\"2.0\",\"id\":2,\"method\":\"tools/call\",\"params\":{\"name\":\"add_note\",\"arguments\":{\"title\":\"x\",\"body\":\"y\"}}}''"

definition shutdown_text :: string where
  "shutdown_text = ''{\"jsonrpc\":\"2.0\",\"id\":3,\"method\":\"skill/shutdown\"}''"

definition load_text :: string where
  "load_text = ''{\"jsonrpc\":\"2.0\",\"id\":4,\"method\":\"skill/load\",\"params\":{\"dataDir\":\"/data/kitchen-sink\"}}''"

definition analytics_text :: string where
  "analytics_text = ''{\"jsonrpc\":\"2.0\",\"id\":5,\"method\":\"tools/call\",\"params\":{\"name\":\"advanced_analytics\",\"arguments\":{\"protocol\":\"aave\"}}}''"

definition tick_text :: string where
  "tick_text = ''{\"jsonrpc\":\"2.0\",\"id\":6,\"method\":\"skill/tick\"}''"

definition result_1_text :: string where
  "result_1_text = ''{\"jsonrpc\":\"2.0\",\"id\":1,\"result\":{\"ok\":true}}''"

definition result_2_text :: string where
  "result_2_text = ''{\"jsonrpc\":\"2.0\",\"id\":2,\"result\":{\"ok\":true}}''"

definition add_note_request :: dict where
  "add_note_request =
     [(''jsonrpc'', JStr ''2.0''), (''id'', JInt 2), (''method'', JStr ''tools/call''),
      (''params'', JObj [(''name'', JStr ''add_note''),
                         (''arguments'', JObj [(''title'', JStr ''x''), (''body'', JStr ''y'')])])]"

definition shutdown_request :: "json \<Rightarrow> dict" where
  "shutdown_request msg_id =
     [(''jsonrpc'', JStr ''2.0''), (''id'', msg_id), (''method'', JStr ''skill/shutdown'')]"

definition load_request :: dict where
  "load_request =
     [(''jsonrpc'', JStr ''2.0''), (''id'', JInt 4), (''method'', JStr ''skill/load''),
      (''params'', JObj [(''dataDir'', JStr ''/data/kitchen-sink'')])]"

definition analytics_request :: dict where
  "analytics_request =
     [(''jsonrpc'', JStr ''2.0''), (''id'', JInt 5), (''method'', JStr ''tools/call''),
      (''params'', JObj [(''name'', JStr ''advanced_analytics''),
                         (''arguments'', JObj [(''protocol'', JStr ''aave'')])])]"

definition tick_request :: dict where
  "tick_request = [(''jsonrpc'', JStr ''2.0''), (''id'', JInt 6), (''method'', JStr ''skill/tick'')]"

definition ok_response :: "int \<Rightarrow> dict" where
  "ok_response i = [(''jsonrpc'', JStr ''2.0''), (''id'', JInt i), (''result'', JObj [(''ok'', JBool True)])]"

definition scenario_frames :: "(string \<times> json) list" where
  "scenario_frames =
     [(list_text, JObj (tools_list_request (JInt 1))),
      (add_note_text, JObj add_note_request),
      (shutdown_text, JObj (shutdown_request (JInt 3))),
      (load_text, JObj load_request),
      (analytics_text, JObj analytics_request),
      (tick_text, JObj tick_request),
      (result_1_text, JObj (ok_response 1)),
      (result_2_text, JObj (ok_response 2))]"

definition scenario_loads :: "string \<Rightarrow> json option" where
  "scenario_loads t = map_of scenario_frames t"

text \<open>
  Two fixtures: a server with no tools and one reverse call (id 1) outstanding, and the
  two responses the host can send for it.
\<close>

definition one_call_pending :: server where
  "one_call_pending = snd (reverse_rpc_send ''state/get'' None (init [] None))"

definition result_for_1 :: dict where
  "result_for_1 = [(''jsonrpc'', JStr ''2.0''), (''id'', JInt 1), (''result'', JObj [(''state'', JObj [])])]"

definition error_for_1 :: dict where
  "error_for_1 = [(''jsonrpc'', JStr ''2.0''), (''id'', JInt 1),
                  (''error'', JObj [(''code'', JInt 1), (''message'', JStr ''denied'')])]"


text \<open>A request and a notification for a method the bridge does not implement.\<close>

definition unknown_request :: dict where
  "unknown_request = [(''jsonrpc'', JStr ''2.0''), (''id'', JInt 7), (''method'', JStr ''skill/ping'')]"

definition unknown_notification :: dict where
  "unknown_notification = [(''jsonrpc'', JStr ''2.0''), (''method'', JStr ''skill/ping'')]"

text \<open>
  Requests for the two transforming hooks, with the text the host wants transformed.
\<close>

definition before_message_request :: "json \<Rightarrow> dict" where
  "before_message_request msg =
     [(''jsonrpc'', JStr ''2.0''), (''id'', JInt 7), (''method'', JStr ''skill/beforeMessage''),
      (''params'', JObj [(''message'', msg)])]"

definition after_response_request :: "json \<Rightarrow> dict" where
  "after_response_request msg =
     [(''jsonrpc'', JStr ''2.0''), (''id'', JInt 8), (''method'', JStr ''skill/afterResponse''),
      (''params'', JObj [(''response'', msg)])]"


text \<open>
  Scenario B of the specification: the host calls the tool \<open>add_note\<close>, and answers the
  two reverse calls it expects (ids 1 and 2) as soon as it can.
\<close>

definition scenario_B :: "event list" where
  "scenario_B = [Recv [Utf8 add_note_text], Recv [Utf8 result_1_text], Recv [Utf8 result_2_text]]"

text \<open>
  The skill is loaded (its \<open>on_load\<close> hook registers the tool \<open>advanced_analytics\<close>),
  then the host asks for the tools and calls the new one. The three lines arrive
  together.
\<close>

definition registration_scenario :: "halt \<times> server" where
  "registration_scenario =
     run scenario_loads kitchen_sink [Recv [Utf8 load_text, Utf8 list_text, Utf8 analytics_text]]"




lemmas scenario_defs =
  scenario_loads_def scenario_frames_def list_text_def add_note_text_def shutdown_text_def
  load_text_def analytics_text_def tick_text_def result_1_text_def result_2_text_def
  tools_list_request_def add_note_request_def shutdown_request_def load_request_def
  analytics_request_def tick_request_def ok_response_def
  gas_estimate_def add_note_def kitchen_hooks_def kitchen_sink_def

subsection \<open>Settling a pending call\<close>

lemma pending_pop_again:
  "pending_pop k s = Inr (Some i, s1) \<Longrightarrow> pending s2 = pending s1 \<Longrightarrow> pending_pop k s2 = Inr (None, s2)"
  by (auto simp: pending_pop_def pop_key_def split: if_splits json.splits)

lemma pending_pop_none:
  "pending_pop k s = Inr (None, s1) \<Longrightarrow> s1 = s"
  by (auto simp: pending_pop_def pop_key_def split: if_splits json.splits)

lemma pending_set_result [simp]: "pending (set_result i v s) = pending s"
  by (simp add: set_result_def disarm_def)

lemma pending_set_exception [simp]: "pending (set_exception i e s) = pending s"
  by (simp add: set_exception_def disarm_def)

lemma handle_response_again:
  assumes "handle_response d s = Inr s'" and "dict_get d2 ''id'' JNull = dict_get d ''id'' JNull"
  shows "handle_response d2 s' = Inr s'"
proof (cases "pending_pop (dict_get d ''id'' JNull) s")
  case (Inl e)
  with assms show ?thesis by (simp add: handle_response_def)
next
  case (Inr r)
  obtain oi s1 where r: "r = (oi, s1)" by (cases r)
  show ?thesis
  proof (cases oi)
    case None
    with Inr r assms(1) have "s' = s" by (auto simp: handle_response_def dest: pending_pop_none)
    with Inr r None assms(2) show ?thesis by (auto simp: handle_response_def dest: pending_pop_none)
  next
    case (Some i)
    with Inr r have pop: "pending_pop (dict_get d ''id'' JNull) s = Inr (Some i, s1)" by simp
    from assms(1) pop have "pending s' = pending s1"
      by (auto simp: handle_response_def split: if_splits json.splits)
    from pending_pop_again[OF pop this] assms(2) show ?thesis
      by (simp add: handle_response_def)
  qed
qed

lemma one_call_pending_simps:
  "pending one_call_pending = [1]" "futures one_call_pending 1 = Some FPending"
  "out one_call_pending = [Request 1 ''state/get'' None]"
  "timers one_call_pending = [(WaitFor 1, 30)]"
  "next_id one_call_pending = 2" "logs one_call_pending = []"
  by (simp_all add: one_call_pending_def reverse_rpc_send_def init_def write_message_def Let_def)

text \<open>
  Claim C7. Settling a pending call is idempotent. Once a response for an id has been
  handled (the message was a response and the handler returned to the loop in state
  \<open>s'\<close>), handling another response with the same id, a result or an error, changes
  nothing: the state stays \<open>s'\<close>, the loop goes on and no event is consumed. So the
  state after two settlements is the state after one.
\<close>

theorem settle_idempotent:
  assumes "has_key ''result'' d \<or> has_key ''error'' d"
    and "has_key ''result'' d2 \<or> has_key ''error'' d2"
    and "dict_get d2 ''id'' JNull = dict_get d ''id'' JNull"
    and "handle_message (JObj d) s evs = (None, s', evs')"
  shows "handle_message (JObj d2) s' evs2 = (None, s', evs2)"
proof -
  from assms(1,4) have "handle_response d s = Inr s'"
    by (auto simp: handle_message_def split: sum.splits)
  from handle_response_again[OF this assms(3)] assms(2) show ?thesis
    by (auto simp: handle_message_def)
qed

text \<open>
  The witness: the result for id 1 settles the outstanding call (its future holds the
  result, the table is empty), and the error for id 1 that follows is a no-op.
\<close>

theorem settle_idempotent_witness:
  "pending (fst (snd (handle_message (JObj result_for_1) one_call_pending []))) = []
   \<and> futures (fst (snd (handle_message (JObj result_for_1) one_call_pending []))) 1
       = Some (FResult (JObj [(''state'', JObj [])]))
   \<and> handle_message (JObj error_for_1) (fst (snd (handle_message (JObj result_for_1) one_call_pending []))) [Eof]
      = (None, fst (snd (handle_message (JObj result_for_1) one_call_pending [])), [Eof])"
proof -
  have h: "handle_message (JObj result_for_1) one_call_pending []
        = (None, set_result 1 (JObj [(''state'', JObj [])]) (one_call_pending\<lparr>pending := []\<rparr>), [])"
    by (simp add: handle_message_def handle_response_def pending_pop_def pop_key_def
        one_call_pending_simps result_for_1_def has_key_def dict_get_def)
  have k1: "has_key ''result'' result_for_1 \<or> has_key ''error'' result_for_1"
    by (simp add: result_for_1_def has_key_def)
  have k2: "has_key ''result'' error_for_1 \<or> has_key ''error'' error_for_1"
    by (simp add: error_for_1_def has_key_def)
  have ids: "dict_get error_for_1 ''id'' JNull = dict_get result_for_1 ''id'' JNull"
    by (simp add: error_for_1_def result_for_1_def dict_get_def)
  show ?thesis
    using settle_idempotent[OF k1 k2 ids h, of "[Eof]"]
    by (simp add: h set_result_def disarm_def)
qed

subsection \<open>Unknown methods\<close>

lemma dispatch_unknown:
  "meth \<notin> JStr ` set implemented_methods \<Longrightarrow>
     dispatch meth params s evs = (Raised (UnknownMethod meth), s, evs)"
  by (auto simp: dispatch_def implemented_methods_def)

text \<open>
  The request \<open>{"jsonrpc":"2.0","id":7,"method":"skill/ping"}\<close> is answered by one error
  response, and its code is -32603, not -32601: \<open>_dispatch\<close> raises \<open>ValueError\<close>, and
  the only \<open>except\<close> clause of \<open>_handle_message\<close> sends every exception with the code
  -32603.
\<close>

theorem unknown_method_code_counterexample:
  "map error_code (out (fst (snd (handle_message (JObj unknown_request) (init [] None) [])))) = [Some (- 32603)]
   \<and> map error_code (out (fst (snd (handle_message (JObj unknown_request) (init [] None) [])))) \<noteq> [Some (- 32601)]"
  by (simp add: handle_message_def unknown_request_def has_key_def dict_get_def dispatch_def
      send_error_def write_message_def init_def)

text \<open>
  Claim C2, amended. For every inbound message that is not a response and whose method
  is not one of the implemented methods: if it carries an id (a request), the bridge
  writes exactly one error response, with that id and the error code -32603, and logs
  nothing; if it carries no id (a notification), it writes nothing and adds one line to
  the log. In both cases the loop goes on and no event is consumed.
\<close>

theorem unknown_method_error:
  assumes "\<not> has_key ''result'' d" and "\<not> has_key ''error'' d"
    and "dict_get d ''method'' (JStr []) \<notin> JStr ` set implemented_methods"
  shows "handle_message (JObj d) s evs =
           (None,
            if dict_get d ''id'' JNull \<noteq> JNull
            then s\<lparr>out := out s @ [ErrorResponse (dict_get d ''id'' JNull) (- 32603)
                                     (UnknownMethod (dict_get d ''method'' (JStr [])))]\<rparr>
            else s\<lparr>logs := logs s @ [NotificationError (UnknownMethod (dict_get d ''method'' (JStr [])))]\<rparr>,
            evs)"
  using assms
  by (simp add: handle_message_def dispatch_unknown send_error_def write_message_def log_msg_def)

theorem unknown_method_error_witness:
  "out (fst (snd (handle_message (JObj unknown_request) (init [] None) [])))
     = [ErrorResponse (JInt 7) (- 32603) (UnknownMethod (JStr ''skill/ping''))]
   \<and> logs (fst (snd (handle_message (JObj unknown_request) (init [] None) []))) = []
   \<and> out (fst (snd (handle_message (JObj unknown_notification) (init [] None) []))) = []
   \<and> logs (fst (snd (handle_message (JObj unknown_notification) (init [] None) [])))
     = [NotificationError (UnknownMethod (JStr ''skill/ping''))]"
proof -
  have a: "\<not> has_key ''result'' unknown_request" "\<not> has_key ''error'' unknown_request"
    "\<not> has_key ''result'' unknown_notification" "\<not> has_key ''error'' unknown_notification"
    by (simp_all add: unknown_request_def unknown_notification_def has_key_def)
  have b: "dict_get unknown_request ''method'' (JStr []) \<notin> JStr ` set implemented_methods"
    "dict_get unknown_notification ''method'' (JStr []) \<notin> JStr ` set implemented_methods"
    by (simp_all add: unknown_request_def unknown_notification_def dict_get_def implemented_methods_def)
  show ?thesis
    using unknown_method_error[OF a(1) a(2) b(1), of "init [] None" "[]"]
      unknown_method_error[OF a(3) a(4) b(2), of "init [] None" "[]"]
    by (simp add: unknown_request_def unknown_notification_def dict_get_def init_def)
qed

subsection \<open>Steps of the main loop\<close>









text \<open>
  The definitions that a run of the bridge on a concrete input unfolds.
\<close>

lemmas eval_defs =
  init_def dict_set_def strip_def is_space_def has_key_def dict_get_def log_msg_def write_message_def
  send_response_def send_error_def armed_def disarm_def reverse_rpc_send_def expire_def
  start_spawned_def then_result_def pop_key_def pending_pop_def set_result_def set_exception_def
  handle_response_def ok_result_def tool_advert_def tools_list_def tools_get_def hook_def
  lifecycle_def transform_def skill_load_def dispatch_def handle_message_def Let_def

subsection \<open>Blank and malformed lines\<close>




subsection \<open>Properties kept by every step\<close>

lemma preservedD:
  assumes "preserved P" and "P s"
  shows "P (snd (reverse_rpc_send m params s))" and "P (expire j s)" and "P (log_msg e s)"
    and "P (write_message f s)" and "P (set_result i v s)" and "P (set_exception i x s)"
    and "P (snd (pop_key n s))" and "P (skill_load p s)" and "P (s\<lparr>inbuf := b\<rparr>)"
    and "P (s\<lparr>at_eof := c\<rparr>)" and "P (s\<lparr>spawned := sp\<rparr>)"
    and "P (s\<lparr>timers := timers s @ [(SysExit, d)]\<rparr>)"
  using assms by (simp_all add: preserved_def)

lemma foldl_send_preserves:
  assumes "preserved P"
  shows "P s \<Longrightarrow> P (foldl (\<lambda>s' (m, params). snd (reverse_rpc_send m params s')) s xs)"
  by (induction xs arbitrary: s) (auto simp: split_def intro: preservedD(1)[OF assms])

lemma start_spawned_preserves:
  assumes "preserved P" and "P s"
  shows "P (start_spawned s)"
  unfolding start_spawned_def
  by (intro foldl_send_preserves[OF assms(1)] preservedD(11)[OF assms])

lemma await_loop_preserves:
  assumes "preserved P"
  shows "await_loop i m s evs = (w, s', evs') \<Longrightarrow> P s \<Longrightarrow> P s'"
proof (induction evs arbitrary: s)
  case Nil
  then show ?case by (auto split: option.splits)
next
  case (Cons ev evs)
  show ?case
  proof (cases "settled (futures s i)")
    case (Some r)
    with Cons.prems show ?thesis by auto
  next
    case None
    show ?thesis
    proof (cases ev)
      case (Recv ls)
      with None Cons.prems(1) have "await_loop i m (s\<lparr>inbuf := inbuf s @ ls\<rparr>) evs = (w, s', evs')" by simp
      from Cons.IH[OF this preservedD(9)[OF assms Cons.prems(2)]] show ?thesis .
    next
      case Eof
      with None Cons.prems(1) have "await_loop i m (s\<lparr>at_eof := True\<rparr>) evs = (w, s', evs')" by simp
      from Cons.IH[OF this preservedD(10)[OF assms Cons.prems(2)]] show ?thesis .
    next
      case (Fire t)
      show ?thesis
      proof (cases "armed t s")
        case False
        with None Fire Cons.prems(1) have "await_loop i m s evs = (w, s', evs')" by simp
        from Cons.IH[OF this Cons.prems(2)] show ?thesis .
      next
        case True
        show ?thesis
        proof (cases t)
          case SysExit
          with True None Fire Cons.prems show ?thesis by auto
        next
          case (WaitFor j)
          have Pe: "P (expire j s)" by (rule preservedD(2)[OF assms Cons.prems(2)])
          show ?thesis
          proof (cases "j = i")
            case True
            with \<open>armed t s\<close> WaitFor None Fire Cons.prems(1) Pe show ?thesis by auto
          next
            case False
            with \<open>armed t s\<close> WaitFor None Fire Cons.prems(1)
            have "await_loop i m (expire j s) evs = (w, s', evs')" by simp
            from Cons.IH[OF this Pe] show ?thesis .
          qed
        qed
      qed
    qed
  qed
qed

lemma exec_preserves:
  assumes "preserved P"
  shows "exec pr s evs = (r, s', evs') \<Longrightarrow> P s \<Longrightarrow> P s'"
proof (induction pr arbitrary: s evs)
  case (Await m params k)
  obtain i s1 where send: "reverse_rpc_send m params s = (i, s1)" by (cases "reverse_rpc_send m params s")
  obtain w s2 evs2 where aw: "await_loop i m (start_spawned s1) evs = (w, s2, evs2)"
    by (cases "await_loop i m (start_spawned s1) evs")
  have "P s1" using preservedD(1)[OF assms Await.prems(2), of m params] send by simp
  then have "P (start_spawned s1)" by (rule start_spawned_preserves[OF assms])
  then have P2: "P s2" by (rule await_loop_preserves[OF assms aw])
  show ?case
  proof (cases w)
    case (Woken x)
    with Await.prems(1) send aw have "exec (k x) s2 evs2 = (r, s', evs')" by simp
    from Await.IH[OF _ this P2] show ?thesis by auto
  next
    case ExitFired
    with Await.prems(1) send aw P2 show ?thesis by simp
  next
    case StillWaiting
    with Await.prems(1) send aw P2 show ?thesis by simp
  qed
next
  case (EnsureFuture m params k)
  from EnsureFuture.IH[of "s\<lparr>spawned := spawned s @ [(m, params)]\<rparr>" evs] EnsureFuture.prems
    preservedD(11)[OF assms EnsureFuture.prems(2)]
  show ?case by simp
next
  case (LogMsg t k)
  from LogMsg.IH[of "log_msg (SkillLog t) s" evs] LogMsg.prems preservedD(3)[OF assms LogMsg.prems(2)]
  show ?case by simp
next
  case (ToolsList k)
  from ToolsList.IH[of "k (map fst (tools s))" s evs] ToolsList.prems
  show ?case by simp
qed auto

lemma lifecycle_preserves:
  assumes "preserved P"
  shows "lifecycle h s evs = (r, s', evs') \<Longrightarrow> P s \<Longrightarrow> P s'"
  by (cases h) (auto simp: lifecycle_def then_result_def split: prod.splits dest: exec_preserves[OF assms])

lemma transform_preserves:
  assumes "preserved P"
  shows "transform key h s evs = (r, s', evs') \<Longrightarrow> P s \<Longrightarrow> P s'"
  by (cases h) (auto simp: transform_def then_result_def split: prod.splits dest: exec_preserves[OF assms])

lemma dispatch_preserves:
  assumes "preserved P"
  shows "dispatch meth params s evs = (r, s', evs') \<Longrightarrow> P s \<Longrightarrow> P s'"
proof -
  assume d: "dispatch meth params s evs = (r, s', evs')" and Ps: "P s"
  define p where "p = (case params of JObj d \<Rightarrow> d | _ \<Rightarrow> [])"
  have Pl: "P (skill_load p s)" by (rule preservedD(8)[OF assms Ps])
  have Pt: "P (s\<lparr>timers := timers s @ [(SysExit, 1 / 10)]\<rparr>)" by (rule preservedD(12)[OF assms Ps])
  note L = lifecycle_preserves[OF assms] and T = transform_preserves[OF assms]
  from d[unfolded dispatch_def Let_def, folded p_def] Ps Pl Pt show "P s'"
    by (auto simp: then_result_def split: if_splits sum.splits option.splits prod.splits
        dest: L T exec_preserves[OF assms])
qed

lemma pending_pop_preserves:
  assumes "preserved P"
  shows "pending_pop k s = Inr (oi, s1) \<Longrightarrow> P s \<Longrightarrow> P s1"
proof -
  assume pp: "pending_pop k s = Inr (oi, s1)" and Ps: "P s"
  have "\<And>n. pop_key n s = (oi, s1) \<Longrightarrow> P s1"
    using preservedD(7)[OF assms Ps] by (metis snd_conv)
  with pp Ps show "P s1"
    by (auto simp: pending_pop_def split: if_splits json.splits)
qed

lemma handle_response_preserves:
  assumes "preserved P"
  shows "handle_response d s = Inr s' \<Longrightarrow> P s \<Longrightarrow> P s'"
proof -
  assume h: "handle_response d s = Inr s'" and Ps: "P s"
  show "P s'"
  proof (cases "pending_pop (dict_get d ''id'' JNull) s")
    case (Inl e)
    with h show ?thesis by (simp add: handle_response_def)
  next
    case (Inr x)
    obtain oi s1 where x: "x = (oi, s1)" by (cases x)
    with Inr have P1: "P s1" using pending_pop_preserves[OF assms _ Ps] by blast
    note R = preservedD(5)[OF assms P1] and E = preservedD(6)[OF assms P1]
    from h Inr x P1 R E show ?thesis
      by (cases oi) (auto simp: handle_response_def split: if_splits json.splits)
  qed
qed

lemma handle_message_preserves:
  assumes "preserved P"
  shows "handle_message message s evs = (h, s', evs') \<Longrightarrow> P s \<Longrightarrow> P s'"
proof -
  assume hm: "handle_message message s evs = (h, s', evs')" and Ps: "P s"
  show "P s'"
  proof (cases message)
    case (JObj d)
    show ?thesis
    proof (cases "has_key ''result'' d \<or> has_key ''error'' d")
      case True
      with hm JObj Ps show ?thesis
        by (auto simp: handle_message_def split: sum.splits dest: handle_response_preserves[OF assms])
    next
      case False
      obtain r s1 evs1 where dd: "dispatch (dict_get d ''method'' (JStr [])) (dict_get d ''params'' JNull) s evs = (r, s1, evs1)"
        by (cases "dispatch (dict_get d ''method'' (JStr [])) (dict_get d ''params'' JNull) s evs")
      have P1: "P s1" by (rule dispatch_preserves[OF assms dd Ps])
      note W = preservedD(4)[OF assms P1] and G = preservedD(3)[OF assms P1]
      from hm JObj False dd P1 W G show ?thesis
        by (cases r) (auto simp: handle_message_def Let_def send_response_def send_error_def split: if_splits)
    qed
  qed (use hm Ps in \<open>auto simp: handle_message_def\<close>)
qed






subsection \<open>The tool registry\<close>

lemma preserved_tools: "preserved (\<lambda>s. tools s = T)"
  by (simp add: preserved_def reverse_rpc_send_def write_message_def expire_def disarm_def
      log_msg_def set_result_def set_exception_def pop_key_def skill_load_def Let_def)

text \<open>
  The hook ran (its log line is there), and the very next \<open>tools/list\<close> still advertises
  the two tools of the skill only, and the very next \<open>tools/call\<close> for the new name
  fails with "Unknown tool".
\<close>

theorem registration_counterexample:
  "logs (snd registration_scenario) = [SkillLog ''kitchen-sink: registered advanced_analytics tool'']
   \<and> out (snd registration_scenario)
       = [Response (JInt 4) ok_result,
          Response (JInt 1) (JObj [(''tools'', JArr [tool_advert gas_estimate, tool_advert add_note])]),
          ErrorResponse (JInt 5) (- 32603) (UnknownTool (JStr ''advanced_analytics''))]
   \<and> map fst (tools (snd registration_scenario)) = [''gas_estimate'', ''add_note'']"
  by (simp add: registration_scenario_def run.simps eval_defs scenario_defs)

text \<open>
  Claim C3, amended. A tool registered at runtime through the tool-registration surface
  of the context is not added to the registry: \<open>register\<close> does nothing (handler code
  that calls it runs as the code after the call), and handling a message, whatever the
  handler it runs does, leaves the registry as it was. So the very next \<open>tools/list\<close>
  advertises exactly the tools advertised before, and the very next \<open>tools/call\<close> for a
  name that was not in the registry before still fails with "Unknown tool".
\<close>

theorem registration_is_ignored:
  assumes "handle_message message s evs = (h, s', evs')"
  shows "exec (ToolsRegister n d ps ex k) s0 evs0 = exec k s0 evs0
       \<and> tools s' = tools s
       \<and> tools_list s' = tools_list s
       \<and> (map_of (tools s) n = None \<longrightarrow>
            dispatch (JStr ''tools/call'') (JObj [(''name'', JStr n), (''arguments'', args)]) s' evs2
              = (Raised (UnknownTool (JStr n)), s', evs2))"
proof -
  have t: "tools s' = tools s"
    using handle_message_preserves[OF preserved_tools assms, of "tools s"] by simp
  then have "tools_list s' = tools_list s" by (simp add: tools_list_def)
  moreover have "map_of (tools s) n = None \<Longrightarrow>
            dispatch (JStr ''tools/call'') (JObj [(''name'', JStr n), (''arguments'', args)]) s' evs2
              = (Raised (UnknownTool (JStr n)), s', evs2)"
    using t by (simp add: dispatch_def tools_get_def dict_get_def)
  ultimately show ?thesis using t by simp
qed

text \<open>
  The witness: after \<open>skill/load\<close> has run the hook that registers
  \<open>advanced_analytics\<close>, the tool list is the one of the skill and a call of the new
  name is refused.
\<close>

theorem registration_is_ignored_witness:
  "logs (fst (snd (handle_message (JObj load_request) kitchen_sink [])))
     = [SkillLog ''kitchen-sink: registered advanced_analytics tool'']
   \<and> tools_list (fst (snd (handle_message (JObj load_request) kitchen_sink []))) = tools_list kitchen_sink
   \<and> fst (dispatch (JStr ''tools/call'') (JObj [(''name'', JStr ''advanced_analytics''), (''arguments'', JObj [])])
            (fst (snd (handle_message (JObj load_request) kitchen_sink []))) [])
       = Raised (UnknownTool (JStr ''advanced_analytics''))"
proof -
  let ?r = "handle_message (JObj load_request) kitchen_sink []"
  have h: "?r = (fst ?r, fst (snd ?r), snd (snd ?r))" by simp
  have l: "logs (fst (snd ?r)) = [SkillLog ''kitchen-sink: registered advanced_analytics tool'']"
    by (simp add: eval_defs scenario_defs)
  have n: "map_of (tools kitchen_sink) ''advanced_analytics'' = None"
    by (simp add: eval_defs scenario_defs)
  show ?thesis
    using registration_is_ignored[OF h, of "''advanced_analytics''" _ _ _ _ _ _ "JObj []" "[]"] l n
    by simp
qed

subsection \<open>Timeouts\<close>






subsection \<open>What a reverse call and a timeout change\<close>

lemma reverse_rpc_send_fields:
  "fst (reverse_rpc_send m params s) = next_id s"
  "tools (snd (reverse_rpc_send m params s)) = tools s"
  "next_id (snd (reverse_rpc_send m params s)) = next_id s + 1"
  "spawned (snd (reverse_rpc_send m params s)) = spawned s"
  "armed SysExit (snd (reverse_rpc_send m params s)) = armed SysExit s"
  "armed (WaitFor i) (snd (reverse_rpc_send m params s)) = (i = next_id s \<or> armed (WaitFor i) s)"
  "futures (snd (reverse_rpc_send m params s)) i = (if i = next_id s then Some FPending else futures s i)"
  "set (pending (snd (reverse_rpc_send m params s))) = insert (next_id s) (set (pending s))"
  "out (snd (reverse_rpc_send m params s)) = out s @ [Request (next_id s) m params]"
  "logs (snd (reverse_rpc_send m params s)) = logs s"
  by (auto simp: reverse_rpc_send_def write_message_def armed_def Let_def)

lemma expire_fields:
  "tools (expire j s) = tools s"
  "next_id (expire j s) = next_id s"
  "spawned (expire j s) = spawned s"
  "armed SysExit (expire j s) = armed SysExit s"
  "armed (WaitFor i) (expire j s) = (i \<noteq> j \<and> armed (WaitFor i) s)"
  "futures (expire j s) i = (if i = j \<and> futures s j = Some FPending then Some FCancelled else futures s i)"
  "set (pending (expire j s)) = set (pending s) - {j}"
  "out (expire j s) = out s"
  "logs (expire j s) = logs s"
  by (auto simp: expire_def disarm_def armed_def Let_def)

lemma foldl_send_fields:
  fixes xs :: "(string \<times> json option) list"
  defines "go \<equiv> foldl (\<lambda>s' (m, params). snd (reverse_rpc_send m params s'))"
  shows "tools (go s xs) = tools s"
    and "next_id (go s xs) = next_id s + int (length xs)"
    and "spawned (go s xs) = spawned s"
    and "armed SysExit (go s xs) = armed SysExit s"
    and "i < next_id s \<Longrightarrow> futures (go s xs) i = futures s i"
    and "armed (WaitFor i) s \<Longrightarrow> armed (WaitFor i) (go s xs)"
    and "i \<in> set (pending s) \<Longrightarrow> i \<in> set (pending (go s xs))"
    and "logs (go s xs) = logs s"
  unfolding go_def
  by (induction xs arbitrary: s; simp add: split_def reverse_rpc_send_fields)+

lemma armed_update [simp]:
  "armed t (s\<lparr>spawned := sp\<rparr>) = armed t s"
  "armed t (s\<lparr>inbuf := b\<rparr>) = armed t s"
  "armed t (s\<lparr>at_eof := c\<rparr>) = armed t s"
  "armed t (log_msg e s) = armed t s"
  "armed t (write_message f s) = armed t s"
  by (simp_all add: armed_def log_msg_def write_message_def)

lemma start_spawned_fields:
  "tools (start_spawned s) = tools s"
  "next_id (start_spawned s) = next_id s + int (length (spawned s))"
  "spawned (start_spawned s) = []"
  "armed SysExit (start_spawned s) = armed SysExit s"
  "i < next_id s \<Longrightarrow> futures (start_spawned s) i = futures s i"
  "armed (WaitFor i) s \<Longrightarrow> armed (WaitFor i) (start_spawned s)"
  "i \<in> set (pending s) \<Longrightarrow> i \<in> set (pending (start_spawned s))"
  "logs (start_spawned s) = logs s"
  unfolding start_spawned_def
  by (simp_all add: foldl_send_fields)

subsection \<open>What handler code can observe\<close>

lemma same_view_expire:
  "same_view s t \<Longrightarrow> same_view (expire j s) t"
  "same_view s t \<Longrightarrow> same_view s (expire j t)"
  by (simp_all add: same_view_def expire_fields)

lemma await_loop_sim:
  "same_view s t \<Longrightarrow> futures s i = Some FPending \<Longrightarrow> futures t i = Some FPending \<Longrightarrow>
   armed (WaitFor i) s \<Longrightarrow> armed (WaitFor i) t \<Longrightarrow>
     fst (await_loop i m s evs) = fst (await_loop i m t evs)
     \<and> snd (snd (await_loop i m s evs)) = snd (snd (await_loop i m t evs))
     \<and> same_view (fst (snd (await_loop i m s evs))) (fst (snd (await_loop i m t evs)))"
proof (induction evs arbitrary: s t)
  case Nil
  then show ?case by simp
next
  case (Cons ev evs)
  note v = \<open>same_view s t\<close> and fs = \<open>futures s i = Some FPending\<close> and ft = \<open>futures t i = Some FPending\<close>
    and ws = \<open>armed (WaitFor i) s\<close> and wt = \<open>armed (WaitFor i) t\<close>
  show ?case
  proof (cases ev)
    case (Recv ls)
    have "same_view (s\<lparr>inbuf := inbuf s @ ls\<rparr>) (t\<lparr>inbuf := inbuf t @ ls\<rparr>)"
      using v by (simp add: same_view_def)
    from Cons.IH[OF this] fs ft ws wt Recv show ?thesis by simp
  next
    case Eof
    have "same_view (s\<lparr>at_eof := True\<rparr>) (t\<lparr>at_eof := True\<rparr>)"
      using v by (simp add: same_view_def)
    from Cons.IH[OF this] fs ft ws wt Eof show ?thesis by simp
  next
    case (Fire x)
    show ?thesis
    proof (cases x)
      case SysExit
      have "armed SysExit s = armed SysExit t" using v by (simp add: same_view_def)
      with Cons.IH[OF v fs ft ws wt] v fs ft Fire SysExit show ?thesis by simp
    next
      case (WaitFor j)
      show ?thesis
      proof (cases "j = i")
        case True
        with v fs ft ws wt Fire WaitFor show ?thesis by (simp add: same_view_expire)
      next
        case False
        define s' where "s' = (if armed (WaitFor j) s then expire j s else s)"
        define t' where "t' = (if armed (WaitFor j) t then expire j t else t)"
        have 1: "same_view s' t'" using v by (simp add: s'_def t'_def same_view_expire)
        have 2: "futures s' i = Some FPending" "futures t' i = Some FPending"
          using fs ft False by (simp_all add: s'_def t'_def expire_fields)
        have 3: "armed (WaitFor i) s'" "armed (WaitFor i) t'"
          using ws wt False by (simp_all add: s'_def t'_def expire_fields)
        have "await_loop i m s (ev # evs) = await_loop i m s' evs"
          "await_loop i m t (ev # evs) = await_loop i m t' evs"
          using fs ft False Fire WaitFor by (simp_all add: s'_def t'_def)
        with Cons.IH[OF 1 2 3] show ?thesis by simp
      qed
    qed
  qed
qed

lemma exec_sim:
  "same_view s t \<Longrightarrow>
     fst (exec pr s evs) = fst (exec pr t evs)
     \<and> snd (snd (exec pr s evs)) = snd (snd (exec pr t evs))
     \<and> same_view (fst (snd (exec pr s evs))) (fst (snd (exec pr t evs)))"
proof (induction pr arbitrary: s t evs)
  case (Await m params k)
  note v = \<open>same_view s t\<close>
  define i where "i = next_id s"
  have it: "next_id t = i" using v by (simp add: same_view_def i_def)
  define s1 where "s1 = start_spawned (snd (reverse_rpc_send m params s))"
  define t1 where "t1 = start_spawned (snd (reverse_rpc_send m params t))"
  have v1: "same_view s1 t1"
    using v by (simp add: same_view_def s1_def t1_def start_spawned_fields reverse_rpc_send_fields)
  have f1: "futures s1 i = Some FPending" "futures t1 i = Some FPending"
    using it by (simp_all add: s1_def t1_def i_def start_spawned_fields reverse_rpc_send_fields)
  have w1: "armed (WaitFor i) s1" "armed (WaitFor i) t1"
    using it by (simp_all add: s1_def t1_def i_def start_spawned_fields reverse_rpc_send_fields)
  note sim = await_loop_sim[OF v1 f1 w1, of m evs]
  obtain w s2 evs2 where as: "await_loop i m s1 evs = (w, s2, evs2)" by (cases "await_loop i m s1 evs")
  obtain w' t2 evs2' where at: "await_loop i m t1 evs = (w', t2, evs2')" by (cases "await_loop i m t1 evs")
  from sim as at have eq: "w' = w" "evs2' = evs2" and v2: "same_view s2 t2" by simp_all
  have es: "exec (Await m params k) s evs =
      (case w of Woken r \<Rightarrow> exec (k r) s2 evs2 | ExitFired \<Rightarrow> (Exited, s2, evs2)
       | StillWaiting \<Rightarrow> (Suspended, s2, evs2))"
    using as by (simp add: s1_def i_def split_def reverse_rpc_send_fields split: wake.splits)
  have et: "exec (Await m params k) t evs =
      (case w of Woken r \<Rightarrow> exec (k r) t2 evs2 | ExitFired \<Rightarrow> (Exited, t2, evs2)
       | StillWaiting \<Rightarrow> (Suspended, t2, evs2))"
    using at eq it by (simp add: t1_def split_def reverse_rpc_send_fields split: wake.splits)
  show ?case
  proof (cases w)
    case (Woken r)
    with Await.IH[OF _ v2, of "k r" evs2] es et show ?thesis by simp
  next
    case ExitFired
    with es et v2 show ?thesis by simp
  next
    case StillWaiting
    with es et v2 show ?thesis by simp
  qed
next
  case (EnsureFuture m params k)
  have "same_view (s\<lparr>spawned := spawned s @ [(m, params)]\<rparr>) (t\<lparr>spawned := spawned t @ [(m, params)]\<rparr>)"
    using EnsureFuture.prems by (simp add: same_view_def)
  from EnsureFuture.IH[OF this, of evs] show ?case by simp
next
  case (LogMsg x k)
  have "same_view (log_msg (SkillLog x) s) (log_msg (SkillLog x) t)"
    using LogMsg.prems by (simp add: same_view_def log_msg_def armed_def)
  from LogMsg.IH[OF this, of evs] show ?case by simp
next
  case (ToolsList k)
  have "tools s = tools t" using ToolsList.prems by (simp add: same_view_def)
  with ToolsList.IH[OF _ ToolsList.prems, of "k (map fst (tools t))" evs] show ?case by simp
qed simp_all

subsection \<open>Fire and forget\<close>

lemma armed_disarm: "armed t (disarm u s) = (t \<noteq> u \<and> armed t s)"
  by (auto simp: armed_def disarm_def)

text \<open>
  Whatever becomes of a reverse call (its timeout fires, the host answers with an error,
  the host answers with a result), the state after it agrees with the state before it on
  all that handler code can depend on.
\<close>

lemma same_view_settled:
  "same_view t (expire j t)" "same_view t (set_exception j e t)" "same_view t (set_result j v t)"
proof -
  show "same_view t (expire j t)" by (simp add: same_view_def expire_fields)
  have "armed SysExit (t\<lparr>futures := (futures t)(j \<mapsto> FException e)\<rparr>) = armed SysExit t"
    "armed SysExit (t\<lparr>futures := (futures t)(j \<mapsto> FResult v)\<rparr>) = armed SysExit t"
    by (simp_all add: armed_def)
  then show "same_view t (set_exception j e t)" "same_view t (set_result j v t)"
    by (simp_all add: same_view_def set_exception_def set_result_def armed_disarm)
      (simp_all add: disarm_def)
qed

text \<open>
  Claim C10. Handler code that calls \<open>set_state\<close> or \<open>emit_event\<close> of the context goes
  on at once with the code after the call (\<open>k\<close>), in a state that differs from the one
  before the call only by one more task waiting to be started: no id has been issued, no
  request has been written, so the return of the call says nothing about what the host
  has done. The call hands no value to the code after it, and the fate of the reverse
  call cannot be observed by handler code: for any handler code \<open>pr\<close>, any state and any
  events to come, the outcome of \<open>pr\<close> is the same whether or not the reverse call with
  id \<open>j\<close> has timed out, has been answered with an error, or has been answered with a
  result.
\<close>

theorem fire_and_forget:
  "exec (ctx_set_state partial k) s evs
     = exec k (s\<lparr>spawned := spawned s @ [(''state/set'', Some (JObj [(''partial'', partial)]))]\<rparr>) evs
   \<and> exec (ctx_emit_event event_name data k) s evs
     = exec k (s\<lparr>spawned := spawned s @
          [(''intelligence/emitEvent'', Some (JObj [(''eventType'', event_name), (''data'', data)]))]\<rparr>) evs
   \<and> fst (exec pr (expire j t) evs') = fst (exec pr t evs')
   \<and> fst (exec pr (set_exception j e t) evs') = fst (exec pr t evs')
   \<and> fst (exec pr (set_result j v t) evs') = fst (exec pr t evs')"
proof -
  have a: "fst (exec pr (expire j t) evs') = fst (exec pr t evs')"
    using exec_sim[of t "expire j t" pr evs'] same_view_settled(1)[of t j] by simp
  have b: "fst (exec pr (set_exception j e t) evs') = fst (exec pr t evs')"
    using exec_sim[of t "set_exception j e t" pr evs'] same_view_settled(2)[of t j e] by simp
  have c: "fst (exec pr (set_result j v t) evs') = fst (exec pr t evs')"
    using exec_sim[of t "set_result j v t" pr evs'] same_view_settled(3)[of t j v] by simp
  from a b c show ?thesis by (simp add: ctx_set_state_def ctx_emit_event_def)
qed

subsection \<open>Requests\<close>

text \<open>The second branch of \<open>_handle_message\<close>, for a message that is not a response.\<close>

lemma handle_request:
  assumes "\<not> has_key ''result'' d" and "\<not> has_key ''error'' d"
  shows "handle_message (JObj d) s evs =
      (case dispatch (dict_get d ''method'' (JStr [])) (dict_get d ''params'' JNull) s evs of
         (Returned result, s1, evs1) \<Rightarrow>
           (None, if dict_get d ''id'' JNull \<noteq> JNull
                  then send_response (dict_get d ''id'' JNull) result s1 else s1, evs1)
       | (Raised e, s1, evs1) \<Rightarrow>
           (None, if dict_get d ''id'' JNull \<noteq> JNull
                  then send_error (dict_get d ''id'' JNull) (- 32603) e s1
                  else log_msg (NotificationError e) s1, evs1)
       | (Exited, s1, evs1) \<Rightarrow> (Some ProcessExit, s1, evs1)
       | (Suspended, s1, evs1) \<Rightarrow> (Some InHandler, s1, evs1))"
  using assms by (simp add: handle_message_def Let_def)

lemma dispatch_before_message:
  "dispatch (JStr ''skill/beforeMessage'') params s evs =
     transform ''message''
       (map_option (\<lambda>h. h (dict_get (case params of JObj x \<Rightarrow> x | _ \<Rightarrow> []) ''message'' (JStr [])))
          (hook on_before_message s)) s evs"
  by (simp add: dispatch_def)

lemma dispatch_after_response:
  "dispatch (JStr ''skill/afterResponse'') params s evs =
     transform ''response''
       (map_option (\<lambda>h. h (dict_get (case params of JObj x \<Rightarrow> x | _ \<Rightarrow> []) ''response'' (JStr [])))
          (hook on_after_response s)) s evs"
  by (simp add: dispatch_def)

lemma transform_cases:
  "transform key None s evs = (Returned (JObj [(key, JNull)]), s, evs)"
  "exec body s evs = (Returned v, s1, evs1) \<Longrightarrow>
     transform key (Some body) s evs = (Returned (JObj [(key, str_or_none v)]), s1, evs1)"
  by (simp_all add: transform_def then_result_def)

subsection \<open>Transforming hooks\<close>

lemma transform_request:
  assumes "\<not> has_key ''result'' d" and "\<not> has_key ''error'' d"
    and "(meth, key, sel) = (''skill/beforeMessage'', ''message'', on_before_message)
         \<or> (meth, key, sel) = (''skill/afterResponse'', ''response'', on_after_response)"
    and "dict_get d ''method'' (JStr []) = JStr meth"
    and "arg = dict_get (case dict_get d ''params'' JNull of JObj x \<Rightarrow> x | _ \<Rightarrow> []) key (JStr [])"
  shows "dispatch (dict_get d ''method'' (JStr [])) (dict_get d ''params'' JNull) s evs
              = transform key (map_option (\<lambda>h. h arg) (hook sel s)) s evs"
proof -
  from assms(3) consider
    (before) "meth = ''skill/beforeMessage''" "key = ''message''" "sel = on_before_message"
    | (after) "meth = ''skill/afterResponse''" "key = ''response''" "sel = on_after_response"
    by blast
  then show ?thesis
  proof cases
    case before
    show ?thesis
      unfolding assms(4) assms(5) before by (rule dispatch_before_message)
  next
    case after
    show ?thesis
      unfolding assms(4) assms(5) after by (rule dispatch_after_response)
  qed
qed

text \<open>
  Claim C9. Take a \<open>skill/beforeMessage\<close> request (key \<open>message\<close>, hook
  \<open>on_before_message\<close>) or a \<open>skill/afterResponse\<close> request (key \<open>response\<close>, hook
  \<open>on_after_response\<close>), with an id. If no hook is set, the response carries \<open>null\<close>
  under the key. If the hook is set and returns a string, the response carries exactly
  that string, the empty string included. If the hook returns anything that is not a
  string, the response carries \<open>null\<close>. And the response for the empty string differs
  from the response for "no change".
\<close>

theorem transform_answer_is_explicit:
  assumes "\<not> has_key ''result'' d" and "\<not> has_key ''error'' d"
    and "(meth, key, sel) = (''skill/beforeMessage'', ''message'', on_before_message)
         \<or> (meth, key, sel) = (''skill/afterResponse'', ''response'', on_after_response)"
    and "dict_get d ''method'' (JStr []) = JStr meth"
    and "msg_id = dict_get d ''id'' JNull" and "msg_id \<noteq> JNull"
    and "arg = dict_get (case dict_get d ''params'' JNull of JObj x \<Rightarrow> x | _ \<Rightarrow> []) key (JStr [])"
  shows "(hook sel s = None \<longrightarrow>
            handle_message (JObj d) s evs = (None, send_response msg_id (JObj [(key, JNull)]) s, evs))
       \<and> (hook sel s = Some f \<and> exec (f arg) s evs = (Returned (PStr t), s1, evs1) \<longrightarrow>
            handle_message (JObj d) s evs = (None, send_response msg_id (JObj [(key, JStr t)]) s1, evs1))
       \<and> (hook sel s = Some f \<and> exec (f arg) s evs = (Returned v, s1, evs1) \<and> (\<forall>t. v \<noteq> PStr t) \<longrightarrow>
            handle_message (JObj d) s evs = (None, send_response msg_id (JObj [(key, JNull)]) s1, evs1))
       \<and> JObj [(key, JStr [])] \<noteq> JObj [(key, JNull)]"
proof -
  have id: "dict_get d ''id'' JNull \<noteq> JNull" using assms(5,6) by simp
  have hm: "handle_message (JObj d) s evs =
      (case transform key (map_option (\<lambda>h. h arg) (hook sel s)) s evs of
         (Returned result, s1, evs1) \<Rightarrow> (None, send_response msg_id result s1, evs1)
       | (Raised e, s1, evs1) \<Rightarrow> (None, send_error msg_id (- 32603) e s1, evs1)
       | (Exited, s1, evs1) \<Rightarrow> (Some ProcessExit, s1, evs1)
       | (Suspended, s1, evs1) \<Rightarrow> (Some InHandler, s1, evs1))"
    unfolding handle_request[OF assms(1,2)] transform_request[OF assms(1,2,3,4,7)] assms(5)
    using id by (simp split: prod.split outcome.split)
  have 1: "handle_message (JObj d) s evs = (None, send_response msg_id (JObj [(key, JNull)]) s, evs)"
    if "hook sel s = None"
    unfolding hm using that by (simp add: transform_cases(1))
  have 2: "handle_message (JObj d) s evs = (None, send_response msg_id (JObj [(key, str_or_none w)]) s1, evs1)"
    if "hook sel s = Some f" and "exec (f arg) s evs = (Returned w, s1, evs1)" for w
    unfolding hm using that by (simp add: transform_cases(2))
  have 3: "str_or_none v = JNull" if "\<forall>t. v \<noteq> PStr t"
    using that by (cases v) simp_all
  show ?thesis
  proof (intro conjI impI)
    assume "hook sel s = None"
    then show "handle_message (JObj d) s evs = (None, send_response msg_id (JObj [(key, JNull)]) s, evs)"
      by (rule 1)
  next
    assume "hook sel s = Some f \<and> exec (f arg) s evs = (Returned (PStr t), s1, evs1)"
    then show "handle_message (JObj d) s evs = (None, send_response msg_id (JObj [(key, JStr t)]) s1, evs1)"
      using 2[of "PStr t"] by simp
  next
    assume a: "hook sel s = Some f \<and> exec (f arg) s evs = (Returned v, s1, evs1) \<and> (\<forall>t. v \<noteq> PStr t)"
    then show "handle_message (JObj d) s evs = (None, send_response msg_id (JObj [(key, JNull)]) s1, evs1)"
      using 2[of v] 3 by simp
  next
    show "JObj [(key, JStr [])] \<noteq> JObj [(key, JNull)]" by simp
  qed
qed

text \<open>
  The witness: the hook of the kitchen-sink skill turns \<open>/clear\<close> into the empty
  string and leaves \<open>hello\<close> alone, and the skill has no \<open>on_after_response\<close> hook.
\<close>

lemma transform_request_fields:
  "\<not> has_key ''result'' (before_message_request m)"
  "\<not> has_key ''error'' (before_message_request m)"
  "dict_get (before_message_request m) ''method'' (JStr []) = JStr ''skill/beforeMessage''"
  "JInt 7 = dict_get (before_message_request m) ''id'' JNull"
  "m = dict_get (case dict_get (before_message_request m) ''params'' JNull of JObj x \<Rightarrow> x | _ \<Rightarrow> [])
         ''message'' (JStr [])"
  "\<not> has_key ''result'' (after_response_request m)"
  "\<not> has_key ''error'' (after_response_request m)"
  "dict_get (after_response_request m) ''method'' (JStr []) = JStr ''skill/afterResponse''"
  "JInt 8 = dict_get (after_response_request m) ''id'' JNull"
  "m = dict_get (case dict_get (after_response_request m) ''params'' JNull of JObj x \<Rightarrow> x | _ \<Rightarrow> [])
         ''response'' (JStr [])"
  by (simp_all add: before_message_request_def after_response_request_def has_key_def dict_get_def)

theorem transform_answer_is_explicit_witness:
  "out (fst (snd (handle_message (JObj (before_message_request (JStr ''/clear''))) kitchen_sink [])))
     = [Response (JInt 7) (JObj [(''message'', JStr [])])]
   \<and> out (fst (snd (handle_message (JObj (before_message_request (JStr ''hello''))) kitchen_sink [])))
     = [Response (JInt 7) (JObj [(''message'', JNull)])]
   \<and> out (fst (snd (handle_message (JObj (after_response_request (JStr ''hello''))) kitchen_sink [])))
     = [Response (JInt 8) (JObj [(''response'', JNull)])]"
proof -
  let ?f = "\<lambda>msg. Return (if msg = JStr ''/clear'' then PStr [] else PNone)"
  note c = transform_request_fields[of "JStr ''/clear''"]
  note h = transform_request_fields[of "JStr ''hello''"]
  have hk: "hook on_before_message kitchen_sink = Some ?f" "hook on_after_response kitchen_sink = None"
    by (simp_all add: hook_def kitchen_sink_def init_def kitchen_hooks_def)
  have 1: "handle_message (JObj (before_message_request (JStr ''/clear''))) kitchen_sink []
           = (None, send_response (JInt 7) (JObj [(''message'', JStr [])]) kitchen_sink, [])"
    using transform_answer_is_explicit[OF c(1) c(2) disjI1[OF refl] c(3) c(4) _ c(5),
        of kitchen_sink "[]" ?f "[]" kitchen_sink "[]"] hk
    by simp
  have 2: "handle_message (JObj (before_message_request (JStr ''hello''))) kitchen_sink []
           = (None, send_response (JInt 7) (JObj [(''message'', JNull)]) kitchen_sink, [])"
    using transform_answer_is_explicit[OF h(1) h(2) disjI1[OF refl] h(3) h(4) _ h(5),
        of kitchen_sink "[]" ?f _ kitchen_sink "[]" PNone] hk
    by simp
  have 3: "handle_message (JObj (after_response_request (JStr ''hello''))) kitchen_sink []
           = (None, send_response (JInt 8) (JObj [(''response'', JNull)]) kitchen_sink, [])"
    using transform_answer_is_explicit[OF h(6) h(7) disjI2[OF refl] h(8) h(9) _ h(10),
        of kitchen_sink "[]"] hk
    by simp
  show ?thesis
    unfolding 1 2 3 by (simp add: send_response_def write_message_def kitchen_sink_def init_def)
qed

subsection \<open>Shutdown\<close>





subsection \<open>End of input\<close>




subsection \<open>Reverse calls awaited by a handler\<close>

text \<open>
  While the task of the main loop waits for the future of a reverse call, nothing reads
  stdin: \<open>_run\<close> awaits \<open>_handle_message\<close>, which awaits the handler, so the only
  caller of \<open>readline\<close> is suspended, and the future can only be settled by
  \<open>_handle_message\<close>. A pending future that the task waits for is therefore never
  settled by a response: the task is woken by the timeout or not at all.
\<close>

lemma await_loop_timeout_only:
  "futures s i = Some FPending \<Longrightarrow> await_loop i m s evs = (Woken x, s', evs') \<Longrightarrow>
     x = Inl (RpcTimeout m)"
proof (induction evs arbitrary: s)
  case Nil
  then show ?case by simp
next
  case (Cons ev evs)
  note f = \<open>futures s i = Some FPending\<close>
  show ?case
  proof (cases ev)
    case (Recv ls)
    with Cons.prems have "await_loop i m (s\<lparr>inbuf := inbuf s @ ls\<rparr>) evs = (Woken x, s', evs')" by simp
    from Cons.IH[OF _ this] f show ?thesis by simp
  next
    case Eof
    with Cons.prems have "await_loop i m (s\<lparr>at_eof := True\<rparr>) evs = (Woken x, s', evs')" by simp
    from Cons.IH[OF _ this] f show ?thesis by simp
  next
    case (Fire t)
    show ?thesis
    proof (cases "armed t s")
      case False
      with Fire Cons.prems have "await_loop i m s evs = (Woken x, s', evs')" by simp
      from Cons.IH[OF f this] show ?thesis .
    next
      case True
      show ?thesis
      proof (cases t)
        case SysExit
        with True Fire Cons.prems show ?thesis by simp
      next
        case (WaitFor j)
        show ?thesis
        proof (cases "j = i")
          case True
          with \<open>armed t s\<close> WaitFor Fire Cons.prems show ?thesis by simp
        next
          case False
          with \<open>armed t s\<close> WaitFor Fire Cons.prems
          have a: "await_loop i m (expire j s) evs = (Woken x, s', evs')" by simp
          have "futures (expire j s) i = Some FPending" using f False by (simp add: expire_fields)
          from Cons.IH[OF this a] show ?thesis .
        qed
      qed
    qed
  qed
qed

text \<open>
  So the code that follows an awaited reverse call in a handler is only ever run with the
  timeout failure, whatever the host sends and whenever it sends it.
\<close>

lemma awaited_call_only_times_out:
  "exec (Await m params k) s evs =
     (case await_loop (next_id s) m (start_spawned (snd (reverse_rpc_send m params s))) evs of
        (Woken x, s2, evs2) \<Rightarrow> exec (k (Inl (RpcTimeout m))) s2 evs2
      | (ExitFired, s2, evs2) \<Rightarrow> (Exited, s2, evs2)
      | (StillWaiting, s2, evs2) \<Rightarrow> (Suspended, s2, evs2))"
proof -
  let ?s1 = "start_spawned (snd (reverse_rpc_send m params s))"
  have f: "futures ?s1 (next_id s) = Some FPending"
    by (simp add: start_spawned_fields reverse_rpc_send_fields)
  obtain w s2 evs2 where a: "await_loop (next_id s) m ?s1 evs = (w, s2, evs2)"
    by (cases "await_loop (next_id s) m ?s1 evs")
  have e: "exec (Await m params k) s evs =
     (case w of Woken x \<Rightarrow> exec (k x) s2 evs2 | ExitFired \<Rightarrow> (Exited, s2, evs2)
      | StillWaiting \<Rightarrow> (Suspended, s2, evs2))"
    using a by (simp add: split_def reverse_rpc_send_fields split: wake.splits)
  show ?thesis
  proof (cases w)
    case (Woken x)
    with await_loop_timeout_only[OF f] a have "x = Inl (RpcTimeout m)" by simp
    with e a Woken show ?thesis by simp
  qed (use e a in simp_all)
qed

text \<open>
  Claim C1 says that the handler receives each response while it is suspended and
  finishes with a success response. The code does this instead. The request
  \<open>data/write\<close> is written (one frame, id 1) and the handler is suspended; the two
  responses of the host lie unread in the buffer of the stream reader, and as long as the
  timer has not fired the handler stays suspended. When the timeout of call 1 fires, the
  handler gets the timeout failure, \<open>state/set\<close> is never issued, and the \<open>tools/call\<close>
  is answered by an error response with code -32603. Only then are the two responses
  read, and dropped.
\<close>

theorem scenario_B_times_out:
  "fst (run scenario_loads kitchen_sink scenario_B) = InHandler
   \<and> out (snd (run scenario_loads kitchen_sink scenario_B))
       = [Request 1 ''data/write''
            (Some (JObj [(''filename'', JStr ''note_1.json''),
                         (''content'', JObj [(''title'', JStr ''x''), (''body'', JStr ''y'')])]))]
   \<and> inbuf (snd (run scenario_loads kitchen_sink scenario_B)) = [Utf8 result_1_text, Utf8 result_2_text]
   \<and> fst (run scenario_loads kitchen_sink (scenario_B @ [Fire (WaitFor 1)])) = AwaitingInput
   \<and> out (snd (run scenario_loads kitchen_sink (scenario_B @ [Fire (WaitFor 1)])))
       = [Request 1 ''data/write''
            (Some (JObj [(''filename'', JStr ''note_1.json''),
                         (''content'', JObj [(''title'', JStr ''x''), (''body'', JStr ''y'')])])),
          ErrorResponse (JInt 2) (- 32603) (RpcTimeout ''data/write'')]
   \<and> futures (snd (run scenario_loads kitchen_sink (scenario_B @ [Fire (WaitFor 1)]))) 1 = Some FCancelled
   \<and> inbuf (snd (run scenario_loads kitchen_sink (scenario_B @ [Fire (WaitFor 1)]))) = []"
  by (simp add: scenario_B_def run.simps eval_defs scenario_defs write_data_def set_state_def raised_def)

end
